theory Spec2Isabelle
  imports Complex_Main "HOL-Library.Sublist" "HOL-Library.Multiset" "HOL-Library.Log_Nat"
    "HOL-Library.Product_Lexorder"
begin

section \<open>The answer checker: evaluation handlers and content assembler\<close>

text \<open>
  The repository has three source files: \<^verbatim>\<open>netlify/functions/evaluate.js\<close> (the
  default export, with \<^verbatim>\<open>readJson\<close> and \<^verbatim>\<open>clampNumber\<close>), a second version of the same
  function (\<^verbatim>\<open>evaluate.mjs\<close>: \<^verbatim>\<open>handler\<close> and \<^verbatim>\<open>clamp\<close>) and the browser script
  \<^verbatim>\<open>public/app.js\<close>. The embedding below follows them statement by statement.

  Conventions of the embedding.
  \<^item> A JavaScript string is the list of its UTF-16 code units; the code units are
    of type \<^typ>\<open>char\<close>, so the strings covered are those with code units below 256.
    \<open>length\<close>, \<open>take\<close> and \<open>drop\<close> are \<^verbatim>\<open>.length\<close> and \<^verbatim>\<open>.slice\<close>.
  \<^item> A JavaScript number is a value of \<open>jsnum\<close>: NaN, the two infinities, or a
    finite number, given by the rational it denotes. The arithmetic of the
    language is that of binary64: the result of a multiplication or a division
    is the exact result rounded to the nearest binary64 number (\<open>binary64\<close>). The
    sign of zero is not represented.
  \<^item> A thrown exception is the left injection of a sum; \<^verbatim>\<open>try/catch\<close> is a case
    distinction on it.
  \<^item> What the language itself provides and cannot be computed from the repository
    (\<^verbatim>\<open>JSON.parse\<close>, the conversion of a string to a number and of a number to a
    string) is a parameter of the model, the record \<open>prims\<close>; every theorem holds
    for every choice of it.
\<close>

subsection \<open>Numbers\<close>

datatype jsnum = NaN | NegInf | Fin rat | PosInf

text \<open>The relational operator \<^verbatim>\<open><\<close> on numbers: false as soon as one side is NaN.\<close>

fun num_less :: "jsnum \<Rightarrow> jsnum \<Rightarrow> bool" where
  "num_less NaN y = False"
| "num_less x NaN = False"
| "num_less x NegInf = False"
| "num_less NegInf y = True"
| "num_less PosInf y = False"
| "num_less (Fin a) PosInf = True"
| "num_less (Fin a) (Fin b) = (a < b)"

definition signed_inf :: "bool \<Rightarrow> jsnum" where
  "signed_inf positive = (if positive then PosInf else NegInf)"

text \<open>
  Rounding to binary64. A number \<open>x\<close> other than 0 lies in one binade,
  \<open>2 ^ e \<le> \<bar>x\<bar> < 2 ^ (e + 1)\<close>; the binary64 numbers of that binade are the multiples
  of \<open>2 ^ (e - 52)\<close> (53 significant bits), and below \<open>2 ^ (- 1022)\<close> the multiples of
  \<open>2 ^ (- 1074)\<close> (the subnormal numbers). \<open>round64\<close> is the nearest of these
  multiples, a tie going to the even one; a result of magnitude \<open>2 ^ 1024\<close> or more
  is an infinity.
\<close>

definition round_half_even :: "rat \<Rightarrow> int" where
  "round_half_even x =
     (let f = \<lfloor>x\<rfloor>; d = x - of_int f
      in if d < 1 / 2 then f else if 1 / 2 < d then f + 1 else if even f then f else f + 1)"

definition exponent :: "rat \<Rightarrow> int" where
  "exponent x =
     (if 1 \<le> \<bar>x\<bar> then int (floorlog 2 (nat \<lfloor>\<bar>x\<bar>\<rfloor>)) - 1
      else - int (floorlog 2 (nat \<lceil>1 / \<bar>x\<bar>\<rceil> - 1)))"

definition quantum :: "rat \<Rightarrow> rat" where
  "quantum x = 2 powi (max (exponent x) (- 1022) - 52)"

definition round64 :: "rat \<Rightarrow> rat" where
  "round64 x = (if x = 0 then 0 else quantum x * of_int (round_half_even (x / quantum x)))"

definition binary64 :: "rat \<Rightarrow> jsnum" where
  "binary64 x = (if 2 ^ 1024 \<le> \<bar>round64 x\<bar> then signed_inf (0 < x) else Fin (round64 x))"

text \<open>The operators \<^verbatim>\<open>*\<close> and \<^verbatim>\<open>/\<close>. A zero divisor is read as \<open>+0\<close>; the only divisor of
  the program is the literal 100.\<close>

fun num_times :: "jsnum \<Rightarrow> jsnum \<Rightarrow> jsnum" where
  "num_times NaN y = NaN"
| "num_times x NaN = NaN"
| "num_times (Fin a) (Fin b) = binary64 (a * b)"
| "num_times (Fin a) PosInf = (if a = 0 then NaN else signed_inf (0 < a))"
| "num_times (Fin a) NegInf = (if a = 0 then NaN else signed_inf (a < 0))"
| "num_times PosInf (Fin b) = (if b = 0 then NaN else signed_inf (0 < b))"
| "num_times NegInf (Fin b) = (if b = 0 then NaN else signed_inf (b < 0))"
| "num_times PosInf PosInf = PosInf"
| "num_times NegInf NegInf = PosInf"
| "num_times PosInf NegInf = NegInf"
| "num_times NegInf PosInf = NegInf"

fun num_div :: "jsnum \<Rightarrow> jsnum \<Rightarrow> jsnum" where
  "num_div NaN y = NaN"
| "num_div x NaN = NaN"
| "num_div (Fin a) (Fin b) =
     (if b = 0 then (if a = 0 then NaN else signed_inf (0 < a)) else binary64 (a / b))"
| "num_div (Fin a) PosInf = Fin 0"
| "num_div (Fin a) NegInf = Fin 0"
| "num_div PosInf (Fin b) = signed_inf (0 \<le> b)"
| "num_div NegInf (Fin b) = signed_inf (b < 0)"
| "num_div PosInf PosInf = NaN"
| "num_div NegInf NegInf = NaN"
| "num_div PosInf NegInf = NaN"
| "num_div NegInf PosInf = NaN"

text \<open>\<^verbatim>\<open>Math.min\<close>, \<^verbatim>\<open>Math.max\<close> (NaN as soon as one argument is NaN) and \<^verbatim>\<open>Math.round\<close>
  (the nearest integer, a tie going up: the floor of \<open>x + 1/2\<close>, which is a binary64
  number whenever \<open>x\<close> is one).\<close>

definition Math_min :: "jsnum \<Rightarrow> jsnum \<Rightarrow> jsnum" where
  "Math_min a b = (if a = NaN \<or> b = NaN then NaN else if num_less b a then b else a)"

definition Math_max :: "jsnum \<Rightarrow> jsnum \<Rightarrow> jsnum" where
  "Math_max a b = (if a = NaN \<or> b = NaN then NaN else if num_less a b then b else a)"

definition Math_round :: "jsnum \<Rightarrow> jsnum" where
  "Math_round x = (case x of Fin q \<Rightarrow> Fin (of_int \<lfloor>q + 1 / 2\<rfloor>) | other \<Rightarrow> other)"

subsection \<open>Values, exceptions and the conversions of the language\<close>

text \<open>The values \<^verbatim>\<open>JSON.parse\<close> returns, and \<^verbatim>\<open>undefined\<close> (the value of a property
  that is absent). An object is the list of its own properties; a property is
  looked up from the front.\<close>

datatype jsval =
    JUndefined
  | JNull
  | JBool bool
  | JNum jsnum
  | JStr string
  | JArr "jsval list"
  | JObj "(string \<times> jsval) list"

text \<open>The exceptions of the handlers: \<^verbatim>\<open>JSON.parse\<close> on a malformed text, a property
  read on \<^verbatim>\<open>null\<close> or a call of something that is no function, and the rejection of
  the awaited model call (with its message).\<close>

datatype js_error = SyntaxError | TypeError | Rejected string

record prims =
  JSON_parse :: "string \<Rightarrow> jsval option"
  StringToNumber :: "string \<Rightarrow> jsnum"
  NumberToString :: "jsnum \<Rightarrow> string"

fun and_then :: "'e + 'a \<Rightarrow> ('a \<Rightarrow> 'e + 'b) \<Rightarrow> 'e + 'b" where
  "and_then (Inl e) f = Inl e"
| "and_then (Inr x) f = f x"

fun map_throwing :: "('a \<Rightarrow> 'e + 'b) \<Rightarrow> 'a list \<Rightarrow> 'e + 'b list" where
  "map_throwing f [] = Inr []"
| "map_throwing f (x # xs) =
     and_then (f x) (\<lambda>y. and_then (map_throwing f xs) (\<lambda>ys. Inr (y # ys)))"

text \<open>Truthiness (\<^verbatim>\<open>!x\<close>, \<^verbatim>\<open>x || d\<close>, \<^verbatim>\<open>x ? a : b\<close>).\<close>

fun truthy :: "jsval \<Rightarrow> bool" where
  "truthy JUndefined = False"
| "truthy JNull = False"
| "truthy (JBool b) = b"
| "truthy (JNum n) = (n \<noteq> NaN \<and> n \<noteq> Fin 0)"
| "truthy (JStr s) = (s \<noteq> [])"
| "truthy (JArr xs) = True"
| "truthy (JObj kv) = True"

definition or_else :: "jsval \<Rightarrow> jsval \<Rightarrow> jsval" where
  "or_else x d = (if truthy x then x else d)"

text \<open>Reading a property. \<open>get_member\<close> is the value read from anything but \<^verbatim>\<open>null\<close> and
  \<^verbatim>\<open>undefined\<close>, for the property names the program uses: an own property of an
  object, the \<^verbatim>\<open>length\<close> of an array or a string, \<^verbatim>\<open>undefined\<close> otherwise. \<open>get_prop\<close>
  adds the TypeError of a read on \<^verbatim>\<open>null\<close> or \<^verbatim>\<open>undefined\<close>.\<close>

fun get_member :: "jsval \<Rightarrow> string \<Rightarrow> jsval" where
  "get_member (JObj kv) k = (case map_of kv k of None \<Rightarrow> JUndefined | Some v \<Rightarrow> v)"
| "get_member (JArr xs) k = (if k = ''length'' then JNum (Fin (of_nat (length xs))) else JUndefined)"
| "get_member (JStr s) k = (if k = ''length'' then JNum (Fin (of_nat (length s))) else JUndefined)"
| "get_member v k = JUndefined"

definition get_prop :: "jsval \<Rightarrow> string \<Rightarrow> js_error + jsval" where
  "get_prop v k = (if v = JNull \<or> v = JUndefined then Inl TypeError else Inr (get_member v k))"

fun join :: "string \<Rightarrow> string list \<Rightarrow> string" where
  "join sep [] = []"
| "join sep [x] = x"
| "join sep (x # y # ys) = x @ sep @ join sep (y # ys)"

text \<open>\<^verbatim>\<open>ToString\<close>, as a template literal applies it. An array is the join of its
  elements by a comma (\<^verbatim>\<open>null\<close> and \<^verbatim>\<open>undefined\<close> elements as the empty string); an
  object is \<^verbatim>\<open>[object Object]\<close>, unless it has an own property \<^verbatim>\<open>toString\<close>: a parsed
  value is never a function, so the conversion to a primitive finds no method
  and throws a TypeError.\<close>

fun ToString :: "prims \<Rightarrow> jsval \<Rightarrow> js_error + string"
  and join_elements :: "prims \<Rightarrow> jsval list \<Rightarrow> js_error + string list" where
  "ToString P JUndefined = Inr ''undefined''"
| "ToString P JNull = Inr ''null''"
| "ToString P (JBool b) = Inr (if b then ''true'' else ''false'')"
| "ToString P (JNum n) = Inr (NumberToString P n)"
| "ToString P (JStr s) = Inr s"
| "ToString P (JArr xs) =
     (case join_elements P xs of Inl e \<Rightarrow> Inl e | Inr ss \<Rightarrow> Inr (join '','' ss))"
| "ToString P (JObj kv) =
     (if map_of kv ''toString'' = None then Inr ''[object Object]'' else Inl TypeError)"
| "join_elements P [] = Inr []"
| "join_elements P (x # xs) =
     (case (if x = JNull \<or> x = JUndefined then Inr [] else ToString P x) of
        Inl e \<Rightarrow> Inl e
      | Inr s \<Rightarrow> (case join_elements P xs of Inl e \<Rightarrow> Inl e | Inr ss \<Rightarrow> Inr (s # ss)))"

text \<open>\<^verbatim>\<open>Number(x)\<close>: an array or an object is first converted to a primitive, which for
  parsed values is the string of \<open>ToString\<close>.\<close>

definition Number :: "prims \<Rightarrow> jsval \<Rightarrow> js_error + jsnum" where
  "Number P x =
     (case x of
        JUndefined \<Rightarrow> Inr NaN
      | JNull \<Rightarrow> Inr (Fin 0)
      | JBool b \<Rightarrow> Inr (Fin (if b then 1 else 0))
      | JNum n \<Rightarrow> Inr n
      | JStr s \<Rightarrow> Inr (StringToNumber P s)
      | JArr xs \<Rightarrow> and_then (ToString P x) (\<lambda>s. Inr (StringToNumber P s))
      | JObj kv \<Rightarrow> and_then (ToString P x) (\<lambda>s. Inr (StringToNumber P s)))"

subsection \<open>The helpers \<^verbatim>\<open>clamp\<close> and \<^verbatim>\<open>clampNumber\<close>\<close>

text \<open>
  \<^verbatim>\<open>function clamp(n, min, max) {
    n = Number(n);
    if (Number.isNaN(n)) return min;
    return Math.max(min, Math.min(max, n));
  }\<close>
  \<^verbatim>\<open>clampNumber\<close> of \<^verbatim>\<open>evaluate.js\<close> has the same body.
\<close>

definition clamp :: "prims \<Rightarrow> jsval \<Rightarrow> jsnum \<Rightarrow> jsnum \<Rightarrow> js_error + jsnum" where
  "clamp P n lo hi =
     and_then (Number P n) (\<lambda>n'. if n' = NaN then Inr lo else Inr (Math_max lo (Math_min hi n')))"

definition clampNumber :: "prims \<Rightarrow> jsval \<Rightarrow> jsnum \<Rightarrow> jsnum \<Rightarrow> js_error + jsnum" where
  "clampNumber P n lo hi =
     and_then (Number P n) (\<lambda>n'. if n' = NaN then Inr lo else Inr (Math_max lo (Math_min hi n')))"

subsection \<open>Requests, responses and the model call\<close>

text \<open>The request: \<^verbatim>\<open>event.httpMethod\<close> and \<^verbatim>\<open>event.body\<close> of \<^verbatim>\<open>handler\<close>.\<close>

record event =
  httpMethod :: string
  event_body :: "string option"

text \<open>The body of a response: a fixed text, \<^verbatim>\<open>JSON.stringify(resp)\<close> (kept as the value
  \<^verbatim>\<open>resp\<close>), or the text \<^verbatim>\<open>err?.message || "Internal error"\<close> of a caught exception.\<close>

datatype payload = Text string | Stringified jsval | MessageOf js_error

record response =
  statusCode :: nat
  headers :: "(string \<times> string) list"
  body :: payload

text \<open>The parts of the user message (\<^verbatim>\<open>{type: "text", text}\<close> and
  \<^verbatim>\<open>{type: "image_url", image_url: {url}}\<close>).\<close>

datatype part = TextPart string | ImageUrl jsval

text \<open>The environment: the variable \<^verbatim>\<open>OPENAI_API_KEY\<close> and the awaited call
  \<^verbatim>\<open>client.chat.completions.create\<close>, as a function of the user message it is
  given; it throws, or returns a completion, of which the handlers read
  \<^verbatim>\<open>choices?.[0]?.message?.content\<close> (\<open>None\<close> when absent).\<close>

record env =
  OPENAI_API_KEY :: "string option"
  create :: "part list \<Rightarrow> js_error + string option"

text \<open>Where a handler stands when it reaches the model call: it has thrown, it has
  returned a response, or it goes on with what the rest of the body reads.\<close>

datatype 'a stage = Throw js_error | Return response | Go 'a

definition caught :: "js_error \<Rightarrow> response" where
  "caught err = \<lparr>statusCode = 500, headers = [], body = MessageOf err\<rparr>"

definition or_empty_object :: "string option \<Rightarrow> string" where
  "or_empty_object s = (case s of None \<Rightarrow> ''{}'' | Some t \<Rightarrow> if t = [] then ''{}'' else t)"

definition or_empty_array :: "jsval \<Rightarrow> jsval" where
  "or_empty_array v = (if v = JUndefined then JArr [] else v)"

subsection \<open>The user message\<close>

text \<open>
  \<^verbatim>\<open>if (texts.length) {
    const bigText = texts.map(t => `\n\n[Source: ${t.source || "unknown"}]\n${t.text}`).join("\n");
    const trimmed = bigText.length > 150000 ? bigText.slice(0, 150000) + "\n...[trimmed]" : bigText;
    userContent.push({ type: "text", text: trimmed });
  }\<close>
  The same statements stand in \<^verbatim>\<open>evaluate.js\<close> (lines 35 to 40). \<^verbatim>\<open>texts.map\<close> is a function only when
  \<^verbatim>\<open>texts\<close> is an array.
\<close>

definition source_section :: "prims \<Rightarrow> jsval \<Rightarrow> js_error + string" where
  "source_section P t =
     and_then (get_prop t ''source'') (\<lambda>src.
     and_then (ToString P (or_else src (JStr ''unknown''))) (\<lambda>label.
     and_then (get_prop t ''text'') (\<lambda>txt.
     and_then (ToString P txt) (\<lambda>shown.
       Inr (''\<newline>\<newline>[Source: '' @ label @ '']\<newline>'' @ shown)))))"

definition trimmed :: "string \<Rightarrow> string" where
  "trimmed bigText =
     (if 150000 < length bigText then take 150000 bigText @ ''\<newline>...[trimmed]'' else bigText)"

definition text_parts :: "prims \<Rightarrow> jsval \<Rightarrow> js_error + part list" where
  "text_parts P texts =
     and_then (get_prop texts ''length'') (\<lambda>len.
       if truthy len then
         (case texts of
            JArr ts \<Rightarrow>
              and_then (map_throwing (source_section P) ts) (\<lambda>sections.
                Inr [TextPart (trimmed (join ''\<newline>'' sections))])
          | _ \<Rightarrow> Inl TypeError)
       else Inr [])"

text \<open>
  \<^verbatim>\<open>if (images.length) {
    for (const img of images.slice(0, 12)) {
      userContent.push({ type: "image_url", image_url: { url: img.dataUrl } });
    }
    userContent.push({ type: "text", text: "If images contain handwriting ..." });
  }\<close>
  \<^verbatim>\<open>slice\<close> is a method of arrays and of strings; iterating a string yields its
  characters, each a string of one code unit.
\<close>

definition slice_0_12 :: "jsval \<Rightarrow> js_error + jsval list" where
  "slice_0_12 images =
     (case images of
        JArr xs \<Rightarrow> Inr (take 12 xs)
      | JStr s \<Rightarrow> Inr (map (\<lambda>c. JStr [c]) (take 12 s))
      | _ \<Rightarrow> Inl TypeError)"

definition image_url :: "jsval \<Rightarrow> js_error + part" where
  "image_url img = and_then (get_prop img ''dataUrl'') (\<lambda>url. Inr (ImageUrl url))"

definition image_parts :: "jsval \<Rightarrow> js_error + part list" where
  "image_parts images =
     and_then (get_prop images ''length'') (\<lambda>len.
       if truthy len then
         and_then (slice_0_12 images) (\<lambda>imgs.
         and_then (map_throwing image_url imgs) (\<lambda>urls.
           Inr (urls @ [TextPart
             ''If images contain handwriting or printed text, perform OCR before evaluation.''])))
       else Inr [])"

text \<open>The optional line of the first part: \<^verbatim>\<open>timeLimit ? `- Time Limit (mins): ${timeLimit}\n` : ""\<close>.\<close>

definition time_limit_line :: "prims \<Rightarrow> jsval \<Rightarrow> js_error + string" where
  "time_limit_line P timeLimit =
     (if truthy timeLimit then
        and_then (ToString P timeLimit) (\<lambda>t. Inr (''- Time Limit (mins): '' @ t @ ''\<newline>''))
      else Inr [])"

subsection \<open>\<^verbatim>\<open>handler\<close> (\<^verbatim>\<open>evaluate.mjs\<close>)\<close>

text \<open>The array literal \<^verbatim>\<open>userContent\<close> and the two conditional pushes (lines 24 to 45).\<close>

definition handler_content ::
    "prims \<Rightarrow> jsval \<Rightarrow> jsval \<Rightarrow> jsval \<Rightarrow> jsval \<Rightarrow> jsval \<Rightarrow> jsval \<Rightarrow> js_error + part list" where
  "handler_content P question maxMarks examType timeLimit texts images =
     and_then (ToString P question) (\<lambda>q.
     and_then (ToString P (or_else examType (JStr ''GS''))) (\<lambda>exam.
     and_then (time_limit_line P timeLimit) (\<lambda>limit.
     and_then (ToString P maxMarks) (\<lambda>marks.
     and_then (text_parts P texts) (\<lambda>tp.
     and_then (image_parts images) (\<lambda>ip.
       Inr ([TextPart
              (''Question:\<newline>'' @ q @ ''\<newline>\<newline>'' @
               ''Context:\<newline>- Exam Type: '' @ exam @ ''\<newline>'' @
               limit @
               ''- Max Marks: '' @ marks @ ''\<newline>\<newline>'' @
               ''Candidate Answer (compiled text sections follow).'')]
            @ tp @ ip)))))))"

text \<open>Lines 6 to 45: the method, the key, the body and its destructuring (which
  throws on \<^verbatim>\<open>null\<close>), the validation, the user message. It goes on with the
  destructured \<^verbatim>\<open>maxMarks\<close> and the message.\<close>

definition handler_request :: "prims \<Rightarrow> env \<Rightarrow> event \<Rightarrow> (jsval \<times> part list) stage" where
  "handler_request P E ev =
     (if httpMethod ev \<noteq> ''POST'' then Return \<lparr>statusCode = 405, headers = [], body = Text ''Method not allowed''\<rparr>
      else if OPENAI_API_KEY E = None \<or> OPENAI_API_KEY E = Some [] then
        Return \<lparr>statusCode = 500, headers = [], body = Text ''OPENAI_API_KEY is not set''\<rparr>
      else
        (case JSON_parse P (or_empty_object (event_body ev)) of
           None \<Rightarrow> Throw SyntaxError
         | Some b \<Rightarrow>
             if b = JNull \<or> b = JUndefined then Throw TypeError
             else
               (let question = get_member b ''question'';
                    maxMarks = get_member b ''maxMarks'';
                    examType = get_member b ''examType'';
                    timeLimit = get_member b ''timeLimit'';
                    texts = or_empty_array (get_member b ''texts'');
                    images = or_empty_array (get_member b ''images'')
                in
                  if \<not> truthy question \<or> \<not> truthy maxMarks then
                    Return \<lparr>statusCode = 400, headers = [], body = Text ''Missing question or maxMarks''\<rparr>
                  else
                    (case handler_content P question maxMarks examType timeLimit texts images of
                       Inl err \<Rightarrow> Throw err
                     | Inr userContent \<Rightarrow> Go (maxMarks, userContent)))))"

text \<open>Lines 91 to 113, after the call: the reply is parsed (an empty object when
  that throws), the score clamped and scaled, the response built.\<close>

definition handler_respond :: "prims \<Rightarrow> jsval \<Rightarrow> string option \<Rightarrow> js_error + response" where
  "handler_respond P maxMarks content =
     (let raw = or_empty_object content;
          parsed = (case JSON_parse P raw of None \<Rightarrow> JObj [] | Some v \<Rightarrow> v)
      in
        and_then (get_prop parsed ''rawOutOf100'') (\<lambda>score.
        and_then (clamp P score (Fin 0) (Fin 100)) (\<lambda>rawOutOf100.
        and_then (Number P maxMarks) (\<lambda>marks.
          let scaled = Math_round (num_times (num_div rawOutOf100 (Fin 100)) marks) in
          Inr \<lparr>statusCode = 200,
               headers = [(''Content-Type'', ''application/json'')],
               body = Stringified (JObj
                 [(''rawOutOf100'', JNum rawOutOf100),
                  (''rubric'', or_else (get_member parsed ''rubric'') (JObj [])),
                  (''strengths'', or_else (get_member parsed ''strengths'') (JArr [])),
                  (''weaknesses'', or_else (get_member parsed ''weaknesses'') (JArr [])),
                  (''suggestions'', or_else (get_member parsed ''suggestions'') (JArr [])),
                  (''inline_comments'', or_else (get_member parsed ''inline_comments'') (JArr [])),
                  (''totalScaled'', JNum scaled),
                  (''maxMarks'', JNum marks)])\<rparr>))))"

definition handler :: "prims \<Rightarrow> env \<Rightarrow> event \<Rightarrow> response" where
  "handler P E ev =
     (case handler_request P E ev of
        Return r \<Rightarrow> r
      | Throw err \<Rightarrow> caught err
      | Go (maxMarks, userContent) \<Rightarrow>
          (case create E userContent of
             Inl err \<Rightarrow> caught err
           | Inr content \<Rightarrow>
               (case handler_respond P maxMarks content of
                  Inl err \<Rightarrow> caught err
                | Inr r \<Rightarrow> r)))"

subsection \<open>The module \<^verbatim>\<open>evaluate.js\<close>\<close>

text \<open>
  The default export of \<^verbatim>\<open>evaluate.js\<close> is an arrow function whose body is one
  \<^verbatim>\<open>try\<close> block. The declarations (\<^verbatim>\<open>const\<close>, \<^verbatim>\<open>let\<close>) that stand directly in the
  statement list of that block, with their lines, are listed below; those of the
  inner blocks (\<^verbatim>\<open>bigText\<close>, \<^verbatim>\<open>trimmed\<close>, \<^verbatim>\<open>img\<close>) belong to these. \<^verbatim>\<open>maxMarks\<close> is
  declared by the destructuring of line 17 and again by
  \<^verbatim>\<open>const maxMarks = Number(body.maxMarks)\<close> on line 107.
\<close>

definition try_block_declarations :: "(nat \<times> string) list" where
  "try_block_declarations =
     [(16, ''body''),
      (17, ''question''), (17, ''maxMarks''), (17, ''examType''), (17, ''timeLimit''),
      (17, ''texts''), (17, ''images''),
      (22, ''userContent''),
      (53, ''systemPrompt''),
      (92, ''completion''),
      (102, ''raw''),
      (103, ''parsed''),
      (106, ''rawOutOf100''),
      (107, ''maxMarks''),
      (109, ''totalScaled''),
      (111, ''resp'')]"

text \<open>The early error of the language: a block whose statement list declares one
  name twice is a SyntaxError, raised when the source is parsed, before any
  statement of the module runs.\<close>

definition early_error :: "string list \<Rightarrow> js_error option" where
  "early_error names = (if distinct names then None else Some SyntaxError)"

definition evaluate_js_load :: "js_error option" where
  "evaluate_js_load = early_error (map snd try_block_declarations)"

text \<open>A call of the default export: the error, when the module is rejected, and no
  response; the function the module would export otherwise is a parameter.\<close>

definition default_export ::
    "(prims \<Rightarrow> env \<Rightarrow> event \<Rightarrow> response) \<Rightarrow> prims \<Rightarrow> env \<Rightarrow> event \<Rightarrow> js_error + response" where
  "default_export exported P E req =
     (case evaluate_js_load of
        Some err \<Rightarrow> Inl err
      | None \<Rightarrow> Inr (exported P E req))"

subsection \<open>The content assembler (\<^verbatim>\<open>public/app.js\<close>): PDF files\<close>

text \<open>What the PDF library gives for a document: its pages, each with the strings
  of its text items (\<^verbatim>\<open>textContent.items\<close>, \<^verbatim>\<open>it.str\<close>) and the JPEG data URL its
  rendering to a canvas produces. \<^verbatim>\<open>pdf.numPages\<close> is the length of the list.\<close>

record pdf_page =
  items :: "string list"
  rendering :: string

record text_source =
  source :: string
  text_of :: string

record image_blob =
  mime :: string
  dataUrl :: string

text \<open>\<^verbatim>\<open>String.prototype.trim\<close> removes white space and line terminators at both
  ends; among the code units below 256 these are 9 to 13, 32 and 160.\<close>

definition is_space :: "char \<Rightarrow> bool" where
  "is_space c = (of_char c \<in> set [9, 10, 11, 12, 13, 32, 160 :: nat])"

definition trim :: "string \<Rightarrow> string" where
  "trim s = rev (dropWhile is_space (rev (dropWhile is_space s)))"

text \<open>The decimal digits of a page number, as the template literal prints it.\<close>

definition digit_char :: "nat \<Rightarrow> char" where
  "digit_char d = ''0123456789'' ! d"

function decimal :: "nat \<Rightarrow> string" where
  "decimal n = (if n < 10 then [digit_char n] else decimal (n div 10) @ [digit_char (n mod 10)])"
  by pat_completeness auto
termination
  by (relation "measure id") auto

declare decimal.simps [simp del]

text \<open>
  \<^verbatim>\<open>for (let i = 1; i <= Math.min(pdf.numPages, 20); i++) {
    const page = await pdf.getPage(i);
    const textContent = await page.getTextContent();
    const pageText = textContent.items.map(it => it.str).join(" ");
    fullText += `\n\n[Page ${i}] ${pageText}`;
  }\<close>
\<close>

function text_loop :: "pdf_page list \<Rightarrow> nat \<Rightarrow> string \<Rightarrow> string" where
  "text_loop pdf i fullText =
     (if i \<le> min (length pdf) 20 then
        text_loop pdf (Suc i)
          (fullText @ ''\<newline>\<newline>[Page '' @ decimal i @ ''] '' @ join '' '' (items (pdf ! (i - 1))))
      else fullText)"
  by pat_completeness auto
termination
  by (relation "measure (\<lambda>(pdf, i, fullText). Suc (min (length pdf) 20) - i)") auto

declare text_loop.simps [simp del]

text \<open>
  \<^verbatim>\<open>for (let i = 1; i <= Math.min(pdf.numPages, 8); i++) { ... pagesAsImages.push(dataUrl); }\<close>
\<close>

function render_loop :: "pdf_page list \<Rightarrow> nat \<Rightarrow> string list \<Rightarrow> string list" where
  "render_loop pdf i pagesAsImages =
     (if i \<le> min (length pdf) 8 then
        render_loop pdf (Suc i) (pagesAsImages @ [rendering (pdf ! (i - 1))])
      else pagesAsImages)"
  by pat_completeness auto
termination
  by (relation "measure (\<lambda>(pdf, i, pagesAsImages). Suc (min (length pdf) 8) - i)") auto

declare render_loop.simps [simp del]

text \<open>\<^verbatim>\<open>extractFromPDF\<close>: the text of at most 20 pages, and the renderings of at most
  8 pages \<^verbatim>\<open>if (!fullText || fullText.trim().length < 500)\<close>.\<close>

definition extractFromPDF :: "pdf_page list \<Rightarrow> string \<times> string list" where
  "extractFromPDF pdf =
     (let fullText = text_loop pdf 1 [];
          pagesAsImages =
            (if fullText = [] \<or> length (trim fullText) < 500 then render_loop pdf 1 [] else [])
      in (fullText, pagesAsImages))"

text \<open>
  The PDF branch of the click handler, on the lists \<^verbatim>\<open>texts\<close> and \<^verbatim>\<open>images\<close>:
  \<^verbatim>\<open>const { text, pagesAsImages } = await extractFromPDF(f);
  if (text && text.trim().length > 500) {
    texts.push({ source: f.name, text });
  } else {
    for (let i = 0; i < Math.min(pagesAsImages.length, 8); i++) {
      images.push({ mime: "image/jpeg", dataUrl: pagesAsImages[i] });
    }
  }\<close>
\<close>

function push_loop :: "string list \<Rightarrow> nat \<Rightarrow> image_blob list \<Rightarrow> image_blob list" where
  "push_loop pagesAsImages i images =
     (if i < min (length pagesAsImages) 8 then
        push_loop pagesAsImages (Suc i)
          (images @ [\<lparr>mime = ''image/jpeg'', dataUrl = pagesAsImages ! i\<rparr>])
      else images)"
  by pat_completeness auto
termination
  by (relation "measure (\<lambda>(pagesAsImages, i, images). min (length pagesAsImages) 8 - i)") auto

declare push_loop.simps [simp del]

definition pdf_branch ::
    "string \<Rightarrow> pdf_page list \<Rightarrow> text_source list \<times> image_blob list \<Rightarrow> text_source list \<times> image_blob list" where
  "pdf_branch name pdf collected =
     (case (extractFromPDF pdf, collected) of
        ((fullText, pagesAsImages), (texts, images)) \<Rightarrow>
          if fullText \<noteq> [] \<and> 500 < length (trim fullText) then
            (texts @ [\<lparr>source = name, text_of = fullText\<rparr>], images)
          else (texts, push_loop pagesAsImages 0 images))"

subsection \<open>The content assembler: PPTX files\<close>

text \<open>The archive, as the zip library gives it: the entries in the order of
  \<^verbatim>\<open>Object.keys(zip.files)\<close>, each with its content read as a string.\<close>

type_synonym archive = "(string \<times> string) list"

text \<open>\<^verbatim>\<open>path.match(/slide(\d+)\.xml/)?.[1]\<close>: the digits of the leftmost place where
  \<^verbatim>\<open>slide\<close>, one or more digits and \<^verbatim>\<open>.xml\<close> follow one another.\<close>

definition is_digit :: "char \<Rightarrow> bool" where
  "is_digit c = (48 \<le> (of_char c :: nat) \<and> (of_char c :: nat) \<le> 57)"

definition match_here :: "string \<Rightarrow> string option" where
  "match_here s =
     (if prefix ''slide'' s then
        (let digits = takeWhile is_digit (drop 5 s);
             rest = dropWhile is_digit (drop 5 s)
         in if digits \<noteq> [] \<and> prefix ''.xml'' rest then Some digits else None)
      else None)"

fun slide_match :: "string \<Rightarrow> string option" where
  "slide_match [] = None"
| "slide_match (c # cs) =
     (case match_here (c # cs) of Some digits \<Rightarrow> Some digits | None \<Rightarrow> slide_match cs)"

text \<open>\<^verbatim>\<open>Number\<close> of a string of decimal digits: the binary64 number nearest to the
  number the digits write (\<open>digits_value\<close>).\<close>

definition digits_value :: "string \<Rightarrow> nat" where
  "digits_value ds = foldl (\<lambda>n c. 10 * n + (of_char c - 48)) 0 ds"

definition Number_of_digits :: "string \<Rightarrow> jsnum" where
  "Number_of_digits ds = binary64 (of_nat (digits_value ds))"

text \<open>The number the comparator computes for a path:
  \<^verbatim>\<open>Number(a.match(/slide(\d+)\.xml/)?.[1] || 0)\<close>.\<close>

definition slide_number :: "string \<Rightarrow> jsnum" where
  "slide_number path =
     (case slide_match path of None \<Rightarrow> Fin 0 | Some digits \<Rightarrow> Number_of_digits digits)"

text \<open>
  \<^verbatim>\<open>const slideFiles = Object.keys(zip.files)
    .filter(p => p.startsWith("ppt/slides/slide") && p.endsWith(".xml"));
  slideFiles.sort((a,b) => { ...; return na - nb; });\<close>
  The comparator returns \<^verbatim>\<open>na - nb\<close>: negative, zero (or NaN for two infinities,
  which \<^verbatim>\<open>sort\<close> reads as zero) or positive as \<^verbatim>\<open>na\<close> is less than, equal to or
  greater than \<^verbatim>\<open>nb\<close>. \<^verbatim>\<open>Array.prototype.sort\<close> is stable, so the result is the stable
  sort by the place of the number in the order of the numbers (\<open>sort_rank\<close>).
\<close>

fun sort_rank :: "jsnum \<Rightarrow> nat \<times> rat" where
  "sort_rank NegInf = (0, 0)"
| "sort_rank (Fin q) = (1, q)"
| "sort_rank NaN = (1, 0)"
| "sort_rank PosInf = (2, 0)"

definition slideFiles :: "archive \<Rightarrow> string list" where
  "slideFiles zip_files =
     sort_key (\<lambda>path. sort_rank (slide_number path))
       (filter (\<lambda>p. prefix ''ppt/slides/slide'' p \<and> suffix ''.xml'' p) (map fst zip_files))"

text \<open>\<^verbatim>\<open>[...xml.matchAll(/<a:t>([\s\S]*?)<\/a:t>/g)].map(m => m[1])\<close>: the text between
  each opening tag and the next closing tag after it.\<close>

fun split_at :: "string \<Rightarrow> string \<Rightarrow> (string \<times> string) option" where
  "split_at pat [] = (if pat = [] then Some ([], []) else None)"
| "split_at pat (c # cs) =
     (if prefix pat (c # cs) then Some ([], drop (length pat) (c # cs))
      else (case split_at pat cs of None \<Rightarrow> None | Some (before, after) \<Rightarrow> Some (c # before, after)))"

lemma split_at_length:
  "split_at pat s = Some (before, after) \<Longrightarrow> length before + length pat + length after = length s"
proof (induction s arbitrary: before)
  case Nil
  then show ?case by (simp split: if_splits)
next
  case (Cons c cs)
  show ?case
  proof (cases "prefix pat (c # cs)")
    case True
    then have "length pat \<le> length (c # cs)" by (rule prefix_length_le)
    with True Cons.prems show ?thesis by auto
  next
    case False
    with Cons.prems obtain b where "split_at pat cs = Some (b, after)" and "before = c # b"
      by (auto split: option.splits)
    with Cons.IH show ?thesis by auto
  qed
qed

function text_runs :: "string \<Rightarrow> string list" where
  "text_runs xml =
     (case split_at ''<a:t>'' xml of
        None \<Rightarrow> []
      | Some (before, opened) \<Rightarrow>
          (case split_at ''</a:t>'' opened of
             None \<Rightarrow> []
           | Some (run, after) \<Rightarrow> run # text_runs after))"
  by pat_completeness auto
termination
  by (relation "measure length") (auto dest!: split_at_length)

declare text_runs.simps [simp del]

text \<open>
  \<^verbatim>\<open>for (const path of slideFiles.slice(0, 40)) {
    const xml = await zip.files[path].async("string");
    ...
    const slideNo = path.match(/slide(\d+)\.xml/)?.[1] || "?";
    text += `\n\n[Slide ${slideNo}] ${pageText}`;
  }\<close>
\<close>

definition slide_text :: "archive \<Rightarrow> string \<Rightarrow> string" where
  "slide_text zip_files path =
     (let xml = (case map_of zip_files path of None \<Rightarrow> [] | Some content \<Rightarrow> content);
          pageText = join '' '' (text_runs xml);
          slideNo = (case slide_match path of None \<Rightarrow> ''?'' | Some digits \<Rightarrow> digits)
      in ''\<newline>\<newline>[Slide '' @ slideNo @ ''] '' @ pageText)"

definition extractFromPPTX :: "archive \<Rightarrow> string" where
  "extractFromPPTX zip_files = concat (map (slide_text zip_files) (take 40 (slideFiles zip_files)))"

subsection \<open>Reading a response; sample primitives for evaluation\<close>

text \<open>A member of the value \<^verbatim>\<open>resp\<close> a response carries, as \<^verbatim>\<open>renderResult\<close> of
  \<^verbatim>\<open>app.js\<close> destructures it from the parsed body.\<close>

definition json_field :: "response \<Rightarrow> string \<Rightarrow> jsval" where
  "json_field r k = (case body r of Stringified v \<Rightarrow> get_member v k | other \<Rightarrow> JUndefined)"

text \<open>To evaluate the handlers at concrete requests, a finite part of the
  primitives: each table holds results the language gives (\<^verbatim>\<open>JSON.parse\<close> throws on
  \<^verbatim>\<open>not json\<close>, a text the table does not hold), and the evaluations below consult
  the primitives at these arguments only.\<close>

definition sample_parse :: "string \<Rightarrow> jsval option" where
  "sample_parse =
     map_of
       [(''{}'', JObj []),
        (''null'', JNull),
        (''{\"maxMarks\":10}'', JObj [(''maxMarks'', JNum (Fin 10))]),
        (''{\"question\":\"Q\",\"maxMarks\":10}'',
           JObj [(''question'', JStr ''Q''), (''maxMarks'', JNum (Fin 10))]),
        (''{\"question\":\"Q\",\"maxMarks\":15}'',
           JObj [(''question'', JStr ''Q''), (''maxMarks'', JNum (Fin 15))]),
        (''{\"question\":\"Q\",\"maxMarks\":50}'',
           JObj [(''question'', JStr ''Q''), (''maxMarks'', JNum (Fin 50))]),
        (''{\"question\":\"Q\",\"maxMarks\":0.5}'',
           JObj [(''question'', JStr ''Q''), (''maxMarks'', JNum (Fin (1 / 2)))]),
        (''{\"question\":\"Q\",\"maxMarks\":-5}'',
           JObj [(''question'', JStr ''Q''), (''maxMarks'', JNum (Fin (- 5)))]),
        (''{\"question\":\"Q\",\"maxMarks\":10,\"texts\":null}'',
           JObj [(''question'', JStr ''Q''), (''maxMarks'', JNum (Fin 10)), (''texts'', JNull)]),
        (''{\"rawOutOf100\":29}'', JObj [(''rawOutOf100'', JNum (Fin 29))]),
        (''{\"rawOutOf100\":70}'', JObj [(''rawOutOf100'', JNum (Fin 70))]),
        (''{\"rawOutOf100\":100}'', JObj [(''rawOutOf100'', JNum (Fin 100))]),
        (''{\"rawOutOf100\":true}'', JObj [(''rawOutOf100'', JBool True)])]"

definition sample_prims :: prims where
  "sample_prims =
     \<lparr>JSON_parse = sample_parse,
      StringToNumber = (\<lambda>s. case map_of [(''10'', Fin 10), (''15'', Fin 15)] s of
                               None \<Rightarrow> NaN | Some n \<Rightarrow> n),
      NumberToString = (\<lambda>n. case map_of
                               [(Fin 10, ''10''), (Fin 15, ''15''), (Fin 50, ''50''), (Fin (1 / 2), ''0.5''),
                                (Fin (- 5), ''-5'')] n of
                               None \<Rightarrow> ''NaN'' | Some s \<Rightarrow> s)\<rparr>"

text \<open>An environment with the key set, whose model call returns the given content.\<close>

definition replying :: "string \<Rightarrow> env" where
  "replying reply = \<lparr>OPENAI_API_KEY = Some ''sk-test'', create = (\<lambda>userContent. Inr (Some reply))\<rparr>"

definition post :: "string \<Rightarrow> event" where
  "post text = \<lparr>httpMethod = ''POST'', event_body = Some text\<rparr>"

text \<open>Whether the handler, at the stage it has reached, calls the model; and the
  response it gives to a request it rejects.\<close>

fun reaches_model :: "'a stage \<Rightarrow> bool" where
  "reaches_model (Go x) = True"
| "reaches_model (Throw e) = False"
| "reaches_model (Return r) = False"

definition bad_request :: response where
  "bad_request = \<lparr>statusCode = 400, headers = [], body = Text ''Missing question or maxMarks''\<rparr>"

section \<open>Properties\<close>

subsection \<open>Rounding to binary64\<close>

lemma rhe_bounds: "of_int \<lfloor>x\<rfloor> \<le> (of_int (round_half_even x) :: rat)" "round_half_even x \<le> \<lfloor>x\<rfloor> + 1"
  "\<lfloor>x\<rfloor> \<le> round_half_even x"
  by (auto simp: round_half_even_def Let_def)

lemma rhe_of_int [simp]: "round_half_even (of_int k) = k"
  by (simp add: round_half_even_def)

lemma rhe_of_numeral [simp]: "round_half_even (numeral k) = numeral k"
  using rhe_of_int [of "numeral k"] by simp

lemma rhe_zero [simp]: "round_half_even 0 = 0"
  using rhe_of_int [of 0] by simp

lemma rhe_mono: "x \<le> y \<Longrightarrow> round_half_even x \<le> round_half_even y"
proof -
  assume xy: "x \<le> y"
  then have "\<lfloor>x\<rfloor> \<le> \<lfloor>y\<rfloor>" by (rule floor_mono)
  then consider "\<lfloor>x\<rfloor> = \<lfloor>y\<rfloor>" | "\<lfloor>x\<rfloor> + 1 \<le> \<lfloor>y\<rfloor>" by linarith
  then show ?thesis
  proof cases
    case 1
    with xy show ?thesis by (auto simp: round_half_even_def Let_def)
  next
    case 2
    with rhe_bounds(2) [of x] rhe_bounds(3) [of y] show ?thesis by linarith
  qed
qed

lemma nat_le_pow2: "k \<le> 2 ^ j \<Longrightarrow> (of_nat k :: rat) \<le> 2 ^ j"
  and pow2_le_nat: "2 ^ j \<le> k \<Longrightarrow> (2::rat) ^ j \<le> of_nat k"
  by simp_all

lemma exponent_bounds:
  assumes "x \<noteq> 0"
  shows "2 powi exponent x \<le> \<bar>x\<bar>" and "\<bar>x\<bar> < 2 powi (exponent x + 1)"
proof -
  have "2 powi exponent x \<le> \<bar>x\<bar> \<and> \<bar>x\<bar> < 2 powi (exponent x + 1)"
  proof (cases "1 \<le> \<bar>x\<bar>")
    case True
    define n where "n = nat \<lfloor>\<bar>x\<bar>\<rfloor>"
    have fl: "0 \<le> \<lfloor>\<bar>x\<bar>\<rfloor>" "1 \<le> \<lfloor>\<bar>x\<bar>\<rfloor>" using True by (simp_all add: le_floor_iff)
    have n: "0 < n" "of_nat n \<le> \<bar>x\<bar>" "\<bar>x\<bar> < of_nat n + 1"
      using fl by (simp_all add: n_def) linarith+
    from floorlog_bounds [of n 2] n(1)
    have b: "2 ^ (floorlog 2 n - 1) \<le> n" "n < 2 ^ floorlog 2 n" by auto
    have pos: "0 < floorlog 2 n" using n(1) floorlog_eq_zero_iff [of 2 n] by auto
    have e: "exponent x = int (floorlog 2 n) - 1" using True by (simp add: exponent_def n_def)
    have "(2::rat) powi exponent x = 2 ^ (floorlog 2 n - 1)"
      using pos by (simp add: e power_int_def nat_diff_distrib')
    also have "\<dots> \<le> of_nat n" using b(1) by (rule pow2_le_nat)
    finally have lo: "2 powi exponent x \<le> \<bar>x\<bar>" using n(2) by linarith
    have "n + 1 \<le> 2 ^ floorlog 2 n" using b(2) by simp
    from nat_le_pow2 [OF this]
    have "\<bar>x\<bar> < 2 ^ floorlog 2 n" using n(3) by simp
    also have "(2::rat) ^ floorlog 2 n = 2 powi (exponent x + 1)"
      by (simp add: e power_int_def)
    finally show ?thesis using lo by simp
  next
    case False
    define y where "y = 1 / \<bar>x\<bar>"
    define k where "k = nat \<lceil>y\<rceil>"
    have y: "1 < y" using False assms by (simp add: y_def)
    then have k: "2 \<le> k" "y \<le> of_nat k" "of_nat k - 1 < y"
      by (auto simp: k_def le_nat_iff le_ceiling_iff of_nat_nat) (linarith)+
    define j where "j = floorlog 2 (k - 1)"
    from floorlog_bounds [of "k - 1" 2] k(1)
    have b: "2 ^ (j - 1) \<le> k - 1" "k - 1 < 2 ^ j" by (auto simp: j_def)
    have pos: "0 < j" using k(1) floorlog_eq_zero_iff [of 2 "k - 1"] by (auto simp: j_def)
    have e: "exponent x = - int j" using False by (simp add: exponent_def j_def k_def y_def)
    have "k \<le> 2 ^ j" using b(2) k(1) by simp
    from nat_le_pow2 [OF this]
    have "y \<le> 2 ^ j" using k(2) by linarith
    then have "1 / 2 ^ j \<le> \<bar>x\<bar>" using assms
      by (simp add: y_def field_simps)
    then have lo: "2 powi exponent x \<le> \<bar>x\<bar>"
      using pos by (simp add: e power_int_def field_simps)
    from pow2_le_nat [OF b(1)]
    have "2 ^ (j - 1) < y" using k(1,3) by (simp add: of_nat_diff)
    then have "\<bar>x\<bar> < 1 / 2 ^ (j - 1)" using assms
      by (simp add: y_def field_simps)
    also have "1 / (2::rat) ^ (j - 1) = 2 powi (exponent x + 1)"
      using pos by (cases j) (simp_all add: e power_int_def field_simps)
    finally show ?thesis using lo by simp
  qed
  then show "2 powi exponent x \<le> \<bar>x\<bar>" and "\<bar>x\<bar> < 2 powi (exponent x + 1)" by simp_all
qed


lemma quantum_pos: "0 < quantum x"
  by (simp add: quantum_def)

lemma pow2_le_cancel: "(2::rat) powi a \<le> 2 powi b \<Longrightarrow> a \<le> b"
proof (rule ccontr)
  assume le: "(2::rat) powi a \<le> 2 powi b" and "\<not> a \<le> b"
  then have "b < a" by simp
  then have "(2::rat) powi b < 2 powi a" by (intro power_int_strict_increasing) simp_all
  with le show False by simp
qed

lemma pow2_less_cancel: "(2::rat) powi a < 2 powi b \<Longrightarrow> a < b"
proof (rule ccontr)
  assume less: "(2::rat) powi a < 2 powi b" and "\<not> a < b"
  then have "b \<le> a" by simp
  then have "(2::rat) powi b \<le> 2 powi a" by (intro power_int_increasing) simp_all
  with less show False by simp
qed

lemma exponent_mono:
  assumes "0 < x" "x \<le> y"
  shows "exponent x \<le> exponent y"
proof -
  have "2 powi exponent x \<le> \<bar>x\<bar>" using assms by (intro exponent_bounds) simp
  also have "\<bar>x\<bar> \<le> \<bar>y\<bar>" using assms by simp
  also have "\<bar>y\<bar> < 2 powi (exponent y + 1)" using assms by (intro exponent_bounds) simp
  finally have "exponent x < exponent y + 1" by (rule pow2_less_cancel)
  then show ?thesis by simp
qed

lemma quantum_scale: "2 powi (max (exponent x) (- 1022) + k) / quantum x = 2 powi (k + 52)"
proof -
  have "(2::rat) powi (max (exponent x) (- 1022) + k) / 2 powi (max (exponent x) (- 1022) - 52)
      = 2 powi ((max (exponent x) (- 1022) + k) - (max (exponent x) (- 1022) - 52))"
    by (subst power_int_diff) simp_all
  then show ?thesis by (simp add: quantum_def add.commute)
qed

lemma round64_nonneg: "0 \<le> x \<Longrightarrow> 0 \<le> round64 x"
proof -
  assume "0 \<le> x"
  then have "(of_int 0 :: rat) \<le> x / quantum x" using quantum_pos [of x] by simp
  then have "0 \<le> round_half_even (x / quantum x)"
    using rhe_mono [of "of_int 0" "x / quantum x"] by simp
  then show ?thesis using quantum_pos [of x] by (simp add: round64_def)
qed

lemma round64_upper:
  assumes "0 < x"
  shows "round64 x \<le> 2 powi (max (exponent x) (- 1022) + 1)"
proof -
  let ?c = "max (exponent x) (- 1022)"
  have "x < 2 powi (exponent x + 1)" using exponent_bounds(2) [of x] assms by simp
  also have "\<dots> \<le> 2 powi (?c + 1)" by (intro power_int_increasing) simp_all
  finally have "x / quantum x \<le> 2 powi (?c + 1) / quantum x"
    using quantum_pos [of x] by (simp add: divide_right_mono)
  also have "\<dots> = 2 powi 53" using quantum_scale [of x 1] by simp
  also have "\<dots> = of_int (2 ^ 53)" by (simp add: power_int_def)
  finally have "round_half_even (x / quantum x) \<le> 2 ^ 53"
    using rhe_mono [of "x / quantum x" "of_int (2 ^ 53)"] by simp
  then have "(of_int (round_half_even (x / quantum x)) :: rat) \<le> of_int (2 ^ 53)"
    unfolding of_int_le_iff .
  then have "round64 x \<le> quantum x * of_int (2 ^ 53)"
    using assms quantum_pos [of x] by (simp add: round64_def)
  also have "quantum x * of_int (2 ^ 53) = 2 powi (?c + 1)"
  proof -
    have "2 powi (?c + 1) / quantum x = 2 powi 53" using quantum_scale [of x 1] by simp
    also have "\<dots> = of_int (2 ^ 53)" by (simp add: power_int_def)
    finally show ?thesis using quantum_pos [of x] by (simp add: field_simps)
  qed
  finally show ?thesis .
qed

lemma round64_lower:
  assumes "0 < y" "- 1022 \<le> exponent y"
  shows "2 powi exponent y \<le> round64 y"
proof -
  have c: "max (exponent y) (- 1022) = exponent y" using assms(2) by simp
  have "2 powi exponent y \<le> y" using exponent_bounds(1) [of y] assms by simp
  then have "2 powi exponent y / quantum y \<le> y / quantum y"
    using quantum_pos [of y] by (simp add: divide_right_mono)
  moreover have scale: "2 powi exponent y / quantum y = of_int (2 ^ 52)"
  proof -
    have "2 powi exponent y / quantum y = 2 powi 52" using quantum_scale [of y 0] by (simp add: c)
    also have "\<dots> = of_int (2 ^ 52)" by (simp add: power_int_def)
    finally show ?thesis .
  qed
  ultimately have "2 ^ 52 \<le> round_half_even (y / quantum y)"
    using rhe_mono [of "of_int (2 ^ 52)" "y / quantum y"] by simp
  then have "(of_int (2 ^ 52) :: rat) \<le> of_int (round_half_even (y / quantum y))"
    unfolding of_int_le_iff .
  then have "quantum y * of_int (2 ^ 52) \<le> round64 y"
    using assms quantum_pos [of y] by (simp add: round64_def)
  moreover have "quantum y * of_int (2 ^ 52) = 2 powi exponent y"
    using scale quantum_pos [of y] by (simp add: field_simps)
  ultimately show ?thesis by simp
qed

lemma round64_mono:
  assumes "0 \<le> x" "x \<le> y"
  shows "round64 x \<le> round64 y"
proof (cases "x = 0")
  case True
  then show ?thesis using assms round64_nonneg [of y] by (simp add: round64_def)
next
  case False
  with assms have pos: "0 < x" "0 < y" by simp_all
  let ?cx = "max (exponent x) (- 1022)" and ?cy = "max (exponent y) (- 1022)"
  have "exponent x \<le> exponent y" using pos(1) assms(2) by (rule exponent_mono)
  then consider "?cx = ?cy" | "?cx < ?cy" by linarith
  then show ?thesis
  proof cases
    case 1
    then have q: "quantum x = quantum y" by (simp add: quantum_def)
    have "x / quantum y \<le> y / quantum y"
      using assms(2) quantum_pos [of y] by (simp add: divide_right_mono)
    then have "round_half_even (x / quantum y) \<le> round_half_even (y / quantum y)"
      by (rule rhe_mono)
    then have "(of_int (round_half_even (x / quantum y)) :: rat) \<le> of_int (round_half_even (y / quantum y))"
      unfolding of_int_le_iff .
    then show ?thesis using pos quantum_pos [of y] by (simp add: round64_def q)
  next
    case 2
    then have ey: "- 1022 \<le> exponent y" "?cy = exponent y" by (auto simp: max_def split: if_splits)
    have "round64 x \<le> 2 powi (?cx + 1)" using pos(1) by (rule round64_upper)
    also have "\<dots> \<le> 2 powi exponent y"
    proof -
      have "?cx + 1 \<le> exponent y" using 2 ey(2) by linarith
      then show ?thesis by (intro power_int_increasing) simp_all
    qed
    also have "\<dots> \<le> round64 y" using pos(2) ey(1) by (rule round64_lower)
    finally show ?thesis .
  qed
qed

lemma round64_of_nat:
  assumes "n < 2 ^ 53"
  shows "round64 (of_nat n) = of_nat n"
proof (cases "n = 0")
  case True
  then show ?thesis by (simp add: round64_def)
next
  case False
  let ?x = "of_nat n :: rat"
  have pos: "0 < ?x" "1 \<le> ?x" using False by simp_all
  have "1 \<le> \<bar>?x\<bar>" using pos by simp
  also have "\<bar>?x\<bar> < 2 powi (exponent ?x + 1)" using pos by (intro exponent_bounds) simp
  finally have "(2::rat) powi 0 < 2 powi (exponent ?x + 1)" by simp
  then have lo: "0 \<le> exponent ?x" using pow2_less_cancel [of 0 "exponent ?x + 1"] by simp
  have "2 powi exponent ?x \<le> \<bar>?x\<bar>" using pos by (intro exponent_bounds) simp
  also have "\<bar>?x\<bar> < 2 powi 53" using nat_le_pow2 [of "n + 1" 53] assms by (simp add: power_int_def)
  finally have hi: "exponent ?x \<le> 52" using pow2_less_cancel [of "exponent ?x" 53] by simp
  define d where "d = nat (52 - exponent ?x)"
  have q: "quantum ?x = 1 / 2 ^ d"
    using lo hi by (simp add: quantum_def d_def power_int_def field_simps)
  have "?x / quantum ?x = of_int (int n * 2 ^ d)" by (simp add: q)
  then have "round_half_even (?x / quantum ?x) = int n * 2 ^ d" by (simp only: rhe_of_int)
  then show ?thesis using False by (simp add: round64_def q)
qed

text \<open>Evaluation of the rounding at numerals.\<close>

lemma floor_fraction [simp]: "\<lfloor>numeral a / numeral b :: rat\<rfloor> = numeral a div numeral b"
  using floor_divide_of_int_eq [of "numeral a" "numeral b", where 'a = rat] by simp

lemma floor_neg_fraction [simp]: "\<lfloor>- (numeral a / numeral b) :: rat\<rfloor> = - numeral a div numeral b"
  using floor_divide_of_int_eq [of "- numeral a" "numeral b", where 'a = rat] by simp

lemma ceiling_fraction [simp]: "\<lceil>numeral a / numeral b :: rat\<rceil> = - (- numeral a div numeral b)"
  unfolding ceiling_def by simp

lemma pow2_neg: "0 < n \<Longrightarrow> (2::rat) powi (- int n) = 1 / 2 ^ n"
  by (simp add: power_int_def field_simps)

lemma pow2_numeral: "(2::rat) powi numeral k = 2 ^ numeral k" "(2::rat) powi (- numeral k) = 1 / 2 ^ numeral k"
  by (simp_all add: power_int_def field_simps)

lemmas eval64 = round64_def quantum_def exponent_def round_half_even_def Let_def compute_floorlog pow2_numeral

lemma round64_one: "round64 1 = 1"
  by (simp add: eval64)

lemma binary64_Fin: "binary64 x = Fin y \<longleftrightarrow> \<bar>round64 x\<bar> < 2 ^ 1024 \<and> y = round64 x"
  by (auto simp: binary64_def signed_inf_def)

lemma binary64_zero: "binary64 0 = Fin 0"
  by (simp add: binary64_def round64_def)

lemma binary64_of_nat: "n < 2 ^ 53 \<Longrightarrow> binary64 (of_nat n) = Fin (of_nat n)"
proof -
  assume n: "n < 2 ^ 53"
  then have "(of_nat n :: rat) < of_nat (2 ^ 53)" unfolding of_nat_less_iff .
  also have "\<dots> < 2 ^ 1024" by simp
  finally have "\<bar>of_nat n :: rat\<bar> < 2 ^ 1024" by simp
  with round64_of_nat [OF n] show ?thesis by (simp add: binary64_def)
qed

lemma binary64_nonneg: "0 \<le> x \<Longrightarrow> binary64 x = PosInf \<or> (\<exists>q. binary64 x = Fin q \<and> 0 \<le> q)"
  using round64_nonneg [of x] by (cases "x = 0") (auto simp: binary64_def signed_inf_def round64_def)

text \<open>The scaled score \<^verbatim>\<open>(rawOutOf100 / 100) * maxMarks\<close> of a raw score in \<open>[0, 100]\<close> and
  positive marks: the quotient is rounded, then the product; both roundings keep
  the order, so the result lies between 0 and the marks.\<close>

lemma scaled_bounds:
  assumes m: "binary64 m = Fin m" "0 < m" and r: "0 \<le> r" "r \<le> 100"
  shows "num_times (binary64 (r / 100)) (Fin m) = Fin (round64 (round64 (r / 100) * m))"
    and "0 \<le> round64 (round64 (r / 100) * m)"
    and "round64 (round64 (r / 100) * m) \<le> m"
proof -
  let ?a = "round64 (r / 100)"
  let ?t = "round64 (?a * m)"
  from m have mm: "round64 m = m" "m < 2 ^ 1024" by (auto simp: binary64_Fin)
  have a0: "0 \<le> ?a" using r by (intro round64_nonneg) simp
  have "?a \<le> round64 1" using r by (intro round64_mono) simp_all
  then have a1: "?a \<le> 1" by (simp add: round64_one)
  from a0 a1 have "\<bar>?a\<bar> < 2 ^ 1024"
    by (simp add: abs_if)
  then have quotient: "binary64 (r / 100) = Fin ?a" by (simp add: binary64_Fin)
  have p0: "0 \<le> ?a * m" using a0 m(2) by simp
  have p1: "?a * m \<le> m" using a1 m(2) by (simp add: mult_le_cancel_right1)
  show t0: "0 \<le> ?t" using p0 by (rule round64_nonneg)
  have "?t \<le> round64 m" using p0 p1 by (rule round64_mono)
  then show t1: "?t \<le> m" by (simp add: mm)
  from t0 t1 mm have "\<bar>?t\<bar> < 2 ^ 1024" by simp
  then show "num_times (binary64 (r / 100)) (Fin m) = Fin ?t"
    by (simp add: quotient binary64_Fin)
qed

lemma round_bounds:
  fixes t m :: rat
  assumes "0 \<le> t" "t \<le> m"
  shows "0 \<le> \<lfloor>t + 1 / 2\<rfloor>"
    and "\<lfloor>t + 1 / 2\<rfloor> \<le> \<lfloor>m + 1 / 2\<rfloor>"
    and "m \<in> \<int> \<Longrightarrow> of_int \<lfloor>t + 1 / 2\<rfloor> \<le> m"
proof -
  show "0 \<le> \<lfloor>t + 1 / 2\<rfloor>" using assms(1) by simp
  show le: "\<lfloor>t + 1 / 2\<rfloor> \<le> \<lfloor>m + 1 / 2\<rfloor>" using assms(2) by (intro floor_mono) simp
  show "of_int \<lfloor>t + 1 / 2\<rfloor> \<le> m" if "m \<in> \<int>"
  proof -
    from that obtain k where k: "m = of_int k" by (auto elim: Ints_cases)
    have "\<lfloor>m + 1 / 2\<rfloor> = k" unfolding k by (simp add: floor_unique)
    with le show ?thesis unfolding k by simp
  qed
qed

subsection \<open>Auxiliary facts\<close>

lemma and_then_Inr_iff:
  "and_then m f = Inr y \<longleftrightarrow> (\<exists>x. m = Inr x \<and> f x = Inr y)"
  by (cases m) auto

lemma clamp_value:
  "Math_max (Fin 0) (Math_min (Fin 100) n) =
     (if n = NaN then NaN else if num_less n (Fin 0) then Fin 0
      else if num_less (Fin 100) n then Fin 100 else n)"
  by (cases n) (auto simp: Math_max_def Math_min_def)

lemma clamp_cases:
  "clamp P x (Fin 0) (Fin 100) =
     and_then (Number P x) (\<lambda>n. Inr (if n = NaN \<or> num_less n (Fin 0) then Fin 0
                                     else if num_less (Fin 100) n then Fin 100 else n))"
  by (cases "Number P x") (auto simp: clamp_def clamp_value)

lemma clamp_range:
  assumes "clamp P x (Fin 0) (Fin 100) = Inr c"
  shows "\<exists>r. c = Fin r \<and> 0 \<le> r \<and> r \<le> 100"
proof -
  from assms obtain n where "Number P x = Inr n"
    and c: "c = (if n = NaN \<or> num_less n (Fin 0) then Fin 0
                 else if num_less (Fin 100) n then Fin 100 else n)"
    by (cases "Number P x") (auto simp: clamp_cases)
  show ?thesis
    using c by (cases n) (auto split: if_splits)
qed

text \<open>When \<^verbatim>\<open>handler\<close> reaches the model call, and what it returns before.\<close>

lemma handler_request_Go:
  "handler_request P E ev = Go (m, uc) \<longleftrightarrow>
     httpMethod ev = ''POST'' \<and> OPENAI_API_KEY E \<noteq> None \<and> OPENAI_API_KEY E \<noteq> Some [] \<and>
     (\<exists>b. JSON_parse P (or_empty_object (event_body ev)) = Some b \<and> b \<noteq> JNull \<and> b \<noteq> JUndefined \<and>
          truthy (get_member b ''question'') \<and> truthy (get_member b ''maxMarks'') \<and>
          m = get_member b ''maxMarks'' \<and>
          handler_content P (get_member b ''question'') (get_member b ''maxMarks'')
            (get_member b ''examType'') (get_member b ''timeLimit'')
            (or_empty_array (get_member b ''texts'')) (or_empty_array (get_member b ''images'')) = Inr uc)"
  by (auto simp: handler_request_def Let_def split: option.splits sum.splits)

lemma handler_request_Return:
  "handler_request P E ev = Return r \<Longrightarrow> statusCode r \<in> {405, 500, 400}"
  by (auto simp: handler_request_def Let_def split: option.splits sum.splits if_splits)

lemma handler_respond_Inr:
  assumes "handler_respond P mm content = Inr resp"
  shows "\<exists>r marks. Number P mm = Inr marks \<and> 0 \<le> r \<and> r \<le> 100 \<and>
           statusCode resp = 200 \<and>
           json_field resp ''rawOutOf100'' = JNum (Fin r) \<and>
           json_field resp ''totalScaled'' = JNum (Math_round (num_times (binary64 (r / 100)) marks)) \<and>
           json_field resp ''maxMarks'' = JNum marks"
  using assms
  by (auto simp: handler_respond_def Let_def and_then_Inr_iff json_field_def dest!: clamp_range)

lemma handler_200:
  assumes "statusCode (handler P E ev) = 200"
  shows "\<exists>b uc content. JSON_parse P (or_empty_object (event_body ev)) = Some b \<and>
           handler_request P E ev = Go (get_member b ''maxMarks'', uc) \<and>
           create E uc = Inr content \<and>
           handler_respond P (get_member b ''maxMarks'') content = Inr (handler P E ev)"
proof (cases "handler_request P E ev")
  case (Throw e)
  with assms show ?thesis by (simp add: handler_def caught_def)
next
  case (Return r)
  with assms handler_request_Return [OF Return] show ?thesis by (auto simp add: handler_def)
next
  case (Go x)
  obtain m uc where x: "x = (m, uc)" by (cases x)
  from Go x obtain b where b: "JSON_parse P (or_empty_object (event_body ev)) = Some b"
      "m = get_member b ''maxMarks''"
    by (auto simp: handler_request_Go)
  from assms Go x show ?thesis using b
    by (auto simp: handler_def caught_def split: sum.splits)
qed

text \<open>The definitions unfolded to evaluate the handler at a concrete request, and
  those unfolded to evaluate a rounding.\<close>

lemmas evaluation =
  handler_def handler_request_def handler_respond_def handler_content_def
  post_def replying_def sample_prims_def sample_parse_def or_empty_object_def
  or_empty_array_def time_limit_line_def text_parts_def image_parts_def get_prop_def
  or_else_def clamp_def Number_def Math_max_def Math_min_def Math_round_def
  json_field_def caught_def

lemmas rounding = binary64_def eval64

subsection \<open>The scaled score\<close>

text \<open>
  Claim C1, as amended. For every request that \<^verbatim>\<open>handler\<close> answers with status 200
  and whose \<^verbatim>\<open>maxMarks\<close> converts to a binary64 number \<open>m > 0\<close>: the response carries
  a raw score \<open>r\<close> in \<open>[0, 100]\<close>, the marks \<open>m\<close>, and \<open>totalScaled = Math.round t\<close>, the
  floor of \<open>t + 1/2\<close>, where \<open>t\<close> is the product as the code computes it: \<open>r / 100\<close>
  rounded to binary64, times \<open>m\<close>, rounded to binary64. This score is at least 0
  and at most \<open>Math.round m\<close>, and at most \<open>m\<close> when \<open>m\<close> is a whole number.
\<close>

theorem totalScaled_rounds_within_marks:
  assumes "JSON_parse P (or_empty_object (event_body ev)) = Some b"
    and "Number P (get_member b ''maxMarks'') = Inr (Fin m)"
    and "binary64 m = Fin m"
    and "0 < m"
    and "statusCode (handler P E ev) = 200"
  shows "\<exists>r t. json_field (handler P E ev) ''rawOutOf100'' = JNum (Fin r) \<and> 0 \<le> r \<and> r \<le> 100 \<and>
             json_field (handler P E ev) ''maxMarks'' = JNum (Fin m) \<and>
             t = round64 (round64 (r / 100) * m) \<and>
             json_field (handler P E ev) ''totalScaled'' = JNum (Fin (of_int \<lfloor>t + 1 / 2\<rfloor>)) \<and>
             0 \<le> \<lfloor>t + 1 / 2\<rfloor> \<and>
             \<lfloor>t + 1 / 2\<rfloor> \<le> \<lfloor>m + 1 / 2\<rfloor> \<and>
             (m \<in> \<int> \<longrightarrow> of_int \<lfloor>t + 1 / 2\<rfloor> \<le> m)"
proof -
  let ?resp = "handler P E ev"
  from handler_200 [OF assms(5)] assms(1) obtain content
    where "handler_respond P (get_member b ''maxMarks'') content = Inr ?resp"
    by auto
  from handler_respond_Inr [OF this] assms(2)
  obtain r where r: "0 \<le> r" "r \<le> 100"
      "json_field ?resp ''rawOutOf100'' = JNum (Fin r)"
      "json_field ?resp ''totalScaled'' = JNum (Math_round (num_times (binary64 (r / 100)) (Fin m)))"
      "json_field ?resp ''maxMarks'' = JNum (Fin m)"
    by auto
  let ?t = "round64 (round64 (r / 100) * m)"
  note scaled = scaled_bounds [OF assms(3,4) r(1,2)]
  from r(4) have total: "json_field ?resp ''totalScaled'' = JNum (Fin (of_int \<lfloor>?t + 1 / 2\<rfloor>))"
    by (simp add: scaled(1) Math_round_def)
  from round_bounds [OF scaled(2,3)] r(1,2,3,5) total show ?thesis
    by blast
qed

theorem totalScaled_rounds_within_marks_witness:
  "json_field (handler sample_prims (replying ''{\"rawOutOf100\":29}'')
      (post ''{\"question\":\"Q\",\"maxMarks\":50}'')) ''rawOutOf100'' = JNum (Fin 29) \<and>
   json_field (handler sample_prims (replying ''{\"rawOutOf100\":29}'')
      (post ''{\"question\":\"Q\",\"maxMarks\":50}'')) ''maxMarks'' = JNum (Fin 50) \<and>
   round64 (29 / 100) = 5224175567749775 / 18014398509481984 \<and>
   round64 (round64 (29 / 100) * 50) = 8162774324609023 / 562949953421312 \<and>
   json_field (handler sample_prims (replying ''{\"rawOutOf100\":29}'')
      (post ''{\"question\":\"Q\",\"maxMarks\":50}'')) ''totalScaled'' = JNum (Fin 14) \<and>
   (0::rat) \<le> 14 \<and> (14::rat) \<le> 50"
proof -
  let ?ev = "post ''{\"question\":\"Q\",\"maxMarks\":50}''"
  let ?b = "JObj [(''question'', JStr ''Q''), (''maxMarks'', JNum (Fin 50))]"
  let ?resp = "handler sample_prims (replying ''{\"rawOutOf100\":29}'') ?ev"
  have parse: "JSON_parse sample_prims (or_empty_object (event_body ?ev)) = Some ?b"
    by (simp add: evaluation)
  have marks: "Number sample_prims (get_member ?b ''maxMarks'') = Inr (Fin 50)"
    by (simp add: Number_def)
  have double: "binary64 50 = Fin 50"
    by (simp add: rounding)
  have positive: "(0::rat) < 50" by simp
  have status: "statusCode ?resp = 200"
    by (simp add: evaluation)
  have raw: "json_field ?resp ''rawOutOf100'' = JNum (Fin 29)"
    by (simp add: evaluation)
  have quotient: "round64 (29 / 100) = 5224175567749775 / 18014398509481984"
    by (simp add: eval64)
  have product: "round64 (round64 (29 / 100) * 50) = 8162774324609023 / 562949953421312"
    unfolding quotient by (simp add: eval64)
  from totalScaled_rounds_within_marks [OF parse marks double positive status]
  obtain r t where r: "json_field ?resp ''rawOutOf100'' = JNum (Fin r)"
      "json_field ?resp ''maxMarks'' = JNum (Fin 50)"
      "t = round64 (round64 (r / 100) * 50)"
      "json_field ?resp ''totalScaled'' = JNum (Fin (of_int \<lfloor>t + 1 / 2\<rfloor>))"
    by blast
  from r(1) raw have "r = 29" by simp
  with r(3) product have "t = 8162774324609023 / 562949953421312" by simp
  with r(4) have "json_field ?resp ''totalScaled'' = JNum (Fin 14)" by simp
  with raw r(2) quotient product show ?thesis by simp
qed

text \<open>
  Claim C1 as stated promises \<open>totalScaled \<le> maxMarks\<close> for every \<open>maxMarks > 0\<close>.
  With \<^verbatim>\<open>maxMarks = 0.5\<close> and a raw score of 100 the handler computes
  \<^verbatim>\<open>Math.round((100 / 100) * 0.5)\<close>, which is 1: more than the marks.
\<close>

theorem totalScaled_exceeds_fractional_marks_counterexample:
  "json_field (handler sample_prims (replying ''{\"rawOutOf100\":100}'')
      (post ''{\"question\":\"Q\",\"maxMarks\":0.5}'')) ''rawOutOf100'' = JNum (Fin 100) \<and>
   json_field (handler sample_prims (replying ''{\"rawOutOf100\":100}'')
      (post ''{\"question\":\"Q\",\"maxMarks\":0.5}'')) ''maxMarks'' = JNum (Fin (1 / 2)) \<and>
   json_field (handler sample_prims (replying ''{\"rawOutOf100\":100}'')
      (post ''{\"question\":\"Q\",\"maxMarks\":0.5}'')) ''totalScaled'' = JNum (Fin 1) \<and>
   num_less (Fin 0) (Fin (1 / 2)) \<and> num_less (Fin (1 / 2)) (Fin 1)"
proof -
  have "binary64 1 = Fin 1" and "binary64 (1 / 2) = Fin (1 / 2)"
    by (simp_all add: rounding)
  then show ?thesis
    by (simp add: evaluation)
qed

subsection \<open>Clamping\<close>

text \<open>
  Claim C2, as amended. \<^verbatim>\<open>clamp(x, 0, 100)\<close> (and \<^verbatim>\<open>clampNumber\<close>, which is the same
  function) first converts \<open>x\<close> with \<^verbatim>\<open>Number\<close>, and throws when the conversion
  throws. Of the converted number \<open>n\<close> it returns 0 when \<open>n\<close> is NaN or \<open>n < 0\<close>, 100
  when \<open>n > 100\<close>, and \<open>n\<close> otherwise. So for a number \<open>x\<close> it returns 0, 100 or \<open>x\<close>
  itself as the claim says, and for \<^verbatim>\<open>undefined\<close> it returns 0.
\<close>

theorem clamp_converts_then_clamps:
  "clamp P x (Fin 0) (Fin 100) =
     and_then (Number P x) (\<lambda>n. Inr (if n = NaN \<or> num_less n (Fin 0) then Fin 0
                                     else if num_less (Fin 100) n then Fin 100 else n)) \<and>
   clampNumber P x (Fin 0) (Fin 100) = clamp P x (Fin 0) (Fin 100) \<and>
   clamp P (JNum n) (Fin 0) (Fin 100) =
     Inr (if n = NaN \<or> num_less n (Fin 0) then Fin 0
          else if num_less (Fin 100) n then Fin 100 else n) \<and>
   clamp P JUndefined (Fin 0) (Fin 100) = Inr (Fin 0)"
proof (intro conjI)
  show general: "clamp P x (Fin 0) (Fin 100) =
     and_then (Number P x) (\<lambda>n. Inr (if n = NaN \<or> num_less n (Fin 0) then Fin 0
                                     else if num_less (Fin 100) n then Fin 100 else n))" for x
  proof (cases "Number P x")
    case (Inl e)
    then show ?thesis by (simp add: clamp_def)
  next
    case (Inr n)
    then show ?thesis by (cases n) (simp_all add: clamp_def Math_max_def Math_min_def)
  qed
  show "clampNumber P x (Fin 0) (Fin 100) = clamp P x (Fin 0) (Fin 100)"
    by (simp add: clampNumber_def clamp_def)
  show "clamp P (JNum n) (Fin 0) (Fin 100) =
     Inr (if n = NaN \<or> num_less n (Fin 0) then Fin 0
          else if num_less (Fin 100) n then Fin 100 else n)"
    unfolding general by (simp add: Number_def)
  show "clamp P JUndefined (Fin 0) (Fin 100) = Inr (Fin 0)"
    unfolding general by (simp add: Number_def)
qed

theorem clamp_converts_then_clamps_witness:
  "clamp sample_prims (JNum (Fin 150)) (Fin 0) (Fin 100) = Inr (Fin 100) \<and>
   clamp sample_prims (JNum (Fin (- 3))) (Fin 0) (Fin 100) = Inr (Fin 0) \<and>
   clamp sample_prims (JNum (Fin 70)) (Fin 0) (Fin 100) = Inr (Fin 70) \<and>
   clamp sample_prims (JNum NaN) (Fin 0) (Fin 100) = Inr (Fin 0) \<and>
   clamp sample_prims (JNum PosInf) (Fin 0) (Fin 100) = Inr (Fin 100) \<and>
   clamp sample_prims (JNum NegInf) (Fin 0) (Fin 100) = Inr (Fin 0) \<and>
   clamp sample_prims JNull (Fin 0) (Fin 100) = Inr (Fin 0) \<and>
   clamp sample_prims (JObj [(''toString'', JNum (Fin 1))]) (Fin 0) (Fin 100) = Inl TypeError"
  using clamp_converts_then_clamps [of sample_prims "JNum (Fin 150)" "Fin (- 3)"]
    clamp_converts_then_clamps [of sample_prims "JNum (Fin 70)" NaN]
    clamp_converts_then_clamps [of sample_prims "JNum PosInf" NegInf]
    clamp_converts_then_clamps [of sample_prims JNull NaN]
    clamp_converts_then_clamps [of sample_prims "JObj [(''toString'', JNum (Fin 1))]" NaN]
  by (simp add: Number_def)

text \<open>
  Claim C2 as stated has every input that is not a number give 0 (or, read the
  other way, come back itself). \<^verbatim>\<open>true\<close> is no number, and \<^verbatim>\<open>Number(true)\<close> is 1:
  the helpers return 1, and a reply \<^verbatim>\<open>{"rawOutOf100":true}\<close> is answered with a
  raw score of 1.
\<close>

theorem clamp_of_true_counterexample:
  "clamp sample_prims (JBool True) (Fin 0) (Fin 100) = Inr (Fin 1) \<and>
   clampNumber sample_prims (JBool True) (Fin 0) (Fin 100) = Inr (Fin 1) \<and>
   json_field (handler sample_prims (replying ''{\"rawOutOf100\":true}'')
      (post ''{\"question\":\"Q\",\"maxMarks\":10}'')) ''rawOutOf100'' = JNum (Fin 1)"
  by (simp add: evaluation clampNumber_def)

subsection \<open>Truncation of the text block\<close>

text \<open>
  Claim C3, as amended. A concatenated text block longer than 150000 code units is
  cut to its first 150000 code units, followed by a line feed and the marker
  \<^verbatim>\<open>...[trimmed]\<close> (150013 code units in all, ending in the marker); a block of at
  most 150000 code units is unchanged. The block is the join of the source
  sections, and its truncation is the text part pushed for a non-empty array
  \<^verbatim>\<open>texts\<close>.
\<close>

theorem trimmed_block:
  "(150000 < length bigText \<longrightarrow>
      trimmed bigText = take 150000 bigText @ ''\<newline>...[trimmed]'' \<and>
      length (trimmed bigText) = 150013 \<and>
      take 150000 (trimmed bigText) = take 150000 bigText \<and>
      suffix ''...[trimmed]'' (trimmed bigText)) \<and>
   (length bigText \<le> 150000 \<longrightarrow> trimmed bigText = bigText) \<and>
   (map_throwing (source_section P) (t # ts) = Inr sections \<longrightarrow>
      text_parts P (JArr (t # ts)) = Inr [TextPart (trimmed (join ''\<newline>'' sections))])"
proof (intro conjI impI)
  assume long: "150000 < length bigText"
  then show eq: "trimmed bigText = take 150000 bigText @ ''\<newline>...[trimmed]''"
    by (simp add: trimmed_def)
  from long show "length (trimmed bigText) = 150013"
    unfolding eq by simp
  from long show "take 150000 (trimmed bigText) = take 150000 bigText"
    unfolding eq by simp
  have "trimmed bigText = (take 150000 bigText @ ''\<newline>'') @ ''...[trimmed]''"
    unfolding eq by simp
  then show "suffix ''...[trimmed]'' (trimmed bigText)"
    unfolding suffix_def by blast
next
  assume "length bigText \<le> 150000"
  then show "trimmed bigText = bigText" by (simp add: trimmed_def)
next
  assume "map_throwing (source_section P) (t # ts) = Inr sections"
  then show "text_parts P (JArr (t # ts)) = Inr [TextPart (trimmed (join ''\<newline>'' sections))]"
    by (simp add: text_parts_def get_prop_def)
qed

theorem trimmed_block_witness:
  "trimmed (replicate 150001 (CHR ''a'')) = replicate 150000 (CHR ''a'') @ ''\<newline>...[trimmed]'' \<and>
   length (trimmed (replicate 150001 (CHR ''a''))) = 150013 \<and>
   suffix ''...[trimmed]'' (trimmed (replicate 150001 (CHR ''a''))) \<and>
   trimmed ''abc'' = ''abc'' \<and>
   text_parts sample_prims (JArr [JObj [(''source'', JStr ''a.docx''), (''text'', JStr ''hello'')]])
     = Inr [TextPart ''\<newline>\<newline>[Source: a.docx]\<newline>hello'']"
proof -
  have long: "150000 < length (replicate 150001 (CHR ''a''))" by simp
  have short: "length ''abc'' \<le> 150000" by simp
  have sections: "map_throwing (source_section sample_prims)
      (JObj [(''source'', JStr ''a.docx''), (''text'', JStr ''hello'')] # []) =
      Inr [''\<newline>\<newline>[Source: a.docx]\<newline>hello'']"
    by (simp add: source_section_def get_prop_def or_else_def)
  have small: "trimmed ''\<newline>\<newline>[Source: a.docx]\<newline>hello'' = ''\<newline>\<newline>[Source: a.docx]\<newline>hello''"
    by (simp add: trimmed_def)
  note big = trimmed_block [of "replicate 150001 (CHR ''a'')" sample_prims
        "JObj [(''source'', JStr ''a.docx''), (''text'', JStr ''hello'')]" "[]"
        "[''\<newline>\<newline>[Source: a.docx]\<newline>hello'']"]
  note little = trimmed_block [of "''abc''" sample_prims JNull "[]" "[]"]
  show ?thesis
  proof (intro conjI)
    from big long show "trimmed (replicate 150001 (CHR ''a'')) =
        replicate 150000 (CHR ''a'') @ ''\<newline>...[trimmed]''" by simp
    from big long show "length (trimmed (replicate 150001 (CHR ''a''))) = 150013" by blast
    from big long show "suffix ''...[trimmed]'' (trimmed (replicate 150001 (CHR ''a'')))" by blast
    from little short show "trimmed ''abc'' = ''abc''" by blast
    from big sections small
    show "text_parts sample_prims (JArr [JObj [(''source'', JStr ''a.docx''), (''text'', JStr ''hello'')]])
        = Inr [TextPart ''\<newline>\<newline>[Source: a.docx]\<newline>hello'']"
      by simp
  qed
qed

text \<open>
  Claim C3 as stated has the truncated block be 150000 characters plus the marker
  \<^verbatim>\<open>...[trimmed]\<close>. The code appends \<^verbatim>\<open>"\n...[trimmed]"\<close>: for a block of 150001
  characters the result is not the first 150000 followed by the marker alone, and
  it has 150013 characters, not 150012.
\<close>

theorem trimmed_marker_counterexample:
  "150000 < length (replicate 150001 (CHR ''a'')) \<and>
   trimmed (replicate 150001 (CHR ''a'')) \<noteq>
     take 150000 (replicate 150001 (CHR ''a'')) @ ''...[trimmed]'' \<and>
   length (trimmed (replicate 150001 (CHR ''a''))) = 150000 + 13"
  by (simp add: trimmed_def)

subsection \<open>A reply that does not parse\<close>

lemma ToString_Number:
  "ToString P v = Inr s \<Longrightarrow> \<exists>n. Number P v = Inr n"
  by (cases v) (auto simp: Number_def)

lemma handler_content_marks:
  "handler_content P q m e t txts imgs = Inr uc \<Longrightarrow> \<exists>n. Number P m = Inr n"
  by (auto simp: handler_content_def and_then_Inr_iff dest: ToString_Number)

lemma clamp_undefined: "clamp P JUndefined (Fin 0) (Fin 100) = Inr (Fin 0)"
  by (simp add: clamp_def Number_def)

lemma handler_respond_unparseable:
  assumes "JSON_parse P (or_empty_object content) = None" and "Number P m = Inr marks"
  shows "handler_respond P m content = Inr
     \<lparr>statusCode = 200, headers = [(''Content-Type'', ''application/json'')],
      body = Stringified (JObj
        [(''rawOutOf100'', JNum (Fin 0)), (''rubric'', JObj []), (''strengths'', JArr []),
         (''weaknesses'', JArr []), (''suggestions'', JArr []), (''inline_comments'', JArr []),
         (''totalScaled'', JNum (Math_round (num_times (Fin 0) marks))), (''maxMarks'', JNum marks)])\<rparr>"
  using assms
  by (simp add: handler_respond_def get_prop_def clamp_undefined or_else_def binary64_zero)

text \<open>
  Claim C6. Whenever \<^verbatim>\<open>handler\<close> has reached the model call and the content of the
  reply (or \<^verbatim>\<open>"{}"\<close> in place of an absent or empty content) fails to parse, the
  handler goes on with an empty object: the response has status 200, its
  \<^verbatim>\<open>rawOutOf100\<close> is 0, its rubric is the empty object and its four feedback lists
  are empty.
\<close>

theorem unparseable_reply_gives_defaults:
  assumes "create E uc = Inr content"
    and "JSON_parse P (or_empty_object content) = None"
    and "handler_request P E ev = Go (m, uc) \<and> resp = handler P E ev"
  shows "statusCode resp = 200 \<and>
         json_field resp ''rawOutOf100'' = JNum (Fin 0) \<and>
         json_field resp ''rubric'' = JObj [] \<and>
         json_field resp ''strengths'' = JArr [] \<and>
         json_field resp ''weaknesses'' = JArr [] \<and>
         json_field resp ''suggestions'' = JArr [] \<and>
         json_field resp ''inline_comments'' = JArr []"
proof -
  from assms(3) obtain marks where "Number P m = Inr marks"
    by (auto simp: handler_request_Go dest: handler_content_marks)
  from handler_respond_unparseable [OF assms(2) this] assms(1,3)
  show ?thesis by (simp add: handler_def json_field_def)
qed

theorem unparseable_reply_gives_defaults_witness:
  "statusCode (handler sample_prims (replying ''not json'') (post ''{\"question\":\"Q\",\"maxMarks\":10}'')) = 200 \<and>
   json_field (handler sample_prims (replying ''not json'') (post ''{\"question\":\"Q\",\"maxMarks\":10}''))
     ''rawOutOf100'' = JNum (Fin 0) \<and>
   json_field (handler sample_prims (replying ''not json'') (post ''{\"question\":\"Q\",\"maxMarks\":10}''))
     ''rubric'' = JObj [] \<and>
   json_field (handler sample_prims (replying ''not json'') (post ''{\"question\":\"Q\",\"maxMarks\":10}''))
     ''strengths'' = JArr [] \<and>
   json_field (handler sample_prims (replying ''not json'') (post ''{\"question\":\"Q\",\"maxMarks\":10}''))
     ''weaknesses'' = JArr [] \<and>
   json_field (handler sample_prims (replying ''not json'') (post ''{\"question\":\"Q\",\"maxMarks\":10}''))
     ''suggestions'' = JArr [] \<and>
   json_field (handler sample_prims (replying ''not json'') (post ''{\"question\":\"Q\",\"maxMarks\":10}''))
     ''inline_comments'' = JArr []"
proof -
  let ?E = "replying ''not json''"
  let ?ev = "post ''{\"question\":\"Q\",\"maxMarks\":10}''"
  let ?uc = "[TextPart ''Question:\<newline>Q\<newline>\<newline>Context:\<newline>- Exam Type: GS\<newline>- Max Marks: 10\<newline>\<newline>Candidate Answer (compiled text sections follow).'']"
  have reply: "create ?E ?uc = Inr (Some ''not json'')"
    by (simp add: replying_def)
  have bad: "JSON_parse sample_prims (or_empty_object (Some ''not json'')) = None"
    by (simp add: evaluation)
  have go: "handler_request sample_prims ?E ?ev = Go (JNum (Fin 10), ?uc)"
    by (simp add: evaluation)
  from unparseable_reply_gives_defaults [OF reply bad, of ?ev "JNum (Fin 10)" "handler sample_prims ?E ?ev"] go
  show ?thesis by simp
qed

subsection \<open>Validation\<close>

text \<open>
  Claim C7, as amended. A POST request whose body parses to a value without the
  member \<^verbatim>\<open>question\<close> is answered by \<^verbatim>\<open>handler\<close> with status 400, whatever else the
  body holds, when the API key is set and the body is not \<^verbatim>\<open>null\<close>.
\<close>

theorem missing_question_400:
  assumes "httpMethod ev = ''POST''"
    and "JSON_parse P (or_empty_object (event_body ev)) = Some b"
    and "get_member b ''question'' = JUndefined"
  shows "OPENAI_API_KEY E = Some key \<and> key \<noteq> [] \<and> b \<noteq> JNull \<and> b \<noteq> JUndefined \<longrightarrow>
           handler P E ev = bad_request \<and> statusCode (handler P E ev) = 400"
proof
  assume "OPENAI_API_KEY E = Some key \<and> key \<noteq> [] \<and> b \<noteq> JNull \<and> b \<noteq> JUndefined"
  then show "handler P E ev = bad_request \<and> statusCode (handler P E ev) = 400"
    using assms by (simp add: handler_def handler_request_def bad_request_def Let_def)
qed

theorem missing_question_400_witness:
  "handler sample_prims (replying ''{\"rawOutOf100\":70}'') (post ''{\"maxMarks\":10}'') = bad_request \<and>
   statusCode (handler sample_prims (replying ''{\"rawOutOf100\":70}'') (post ''{\"maxMarks\":10}'')) = 400"
proof -
  let ?E = "replying ''{\"rawOutOf100\":70}''"
  let ?ev = "post ''{\"maxMarks\":10}''"
  let ?b = "JObj [(''maxMarks'', JNum (Fin 10))]"
  have m: "httpMethod ?ev = ''POST''" by (simp add: post_def)
  have p: "JSON_parse sample_prims (or_empty_object (event_body ?ev)) = Some ?b"
    by (simp add: evaluation)
  have q: "get_member ?b ''question'' = JUndefined" by simp
  have k: "OPENAI_API_KEY ?E = Some ''sk-test'' \<and> ''sk-test'' \<noteq> [] \<and> ?b \<noteq> JNull \<and> ?b \<noteq> JUndefined"
    by (simp add: replying_def)
  from missing_question_400 [OF m p q, of ?E "''sk-test''"] k
  show ?thesis by blast
qed

text \<open>
  Claim C7 as stated has every POST request without a question answered with 400.
  \<^verbatim>\<open>handler\<close> tests the API key before it reads the body: without the key, the
  request is answered with 500.
\<close>

theorem missing_question_without_key_counterexample:
  "httpMethod (post ''{\"maxMarks\":10}'') = ''POST'' \<and>
   JSON_parse sample_prims (or_empty_object (event_body (post ''{\"maxMarks\":10}'')))
     = Some (JObj [(''maxMarks'', JNum (Fin 10))]) \<and>
   get_member (JObj [(''maxMarks'', JNum (Fin 10))]) ''question'' = JUndefined \<and>
   handler sample_prims \<lparr>OPENAI_API_KEY = None, create = (\<lambda>userContent. Inr None)\<rparr>
     (post ''{\"maxMarks\":10}'')
     = \<lparr>statusCode = 500, headers = [], body = Text ''OPENAI_API_KEY is not set''\<rparr>"
  by (simp add: evaluation)

text \<open>The body \<^verbatim>\<open>null\<close>: \<^verbatim>\<open>handler\<close> destructures the parsed body as it is, which
  throws, and the request is answered with status 500.\<close>

lemma null_body_response:
  "handler sample_prims (replying ''{}'') (post ''null'') = caught TypeError \<and>
   statusCode (caught TypeError) = 500"
  by (simp add: evaluation)

text \<open>
  Claim C8, as amended. A request reaches the model call of \<^verbatim>\<open>handler\<close> only if its
  body parses to a value whose \<^verbatim>\<open>question\<close> and \<^verbatim>\<open>maxMarks\<close> are both truthy; a POST
  request of which one is falsy is rejected with status 400 before the call, when
  the key is set and the body is not \<^verbatim>\<open>null\<close>. A string is truthy when it is not
  empty, a finite number when it is not 0: the test keeps out an empty question
  and the marks 0, not negative marks.
\<close>

theorem accepted_requests_truthy:
  "(reaches_model (handler_request P E ev) \<longrightarrow>
      (\<exists>b. JSON_parse P (or_empty_object (event_body ev)) = Some b \<and>
           truthy (get_member b ''question'') \<and> truthy (get_member b ''maxMarks''))) \<and>
   (httpMethod ev = ''POST'' \<and> JSON_parse P (or_empty_object (event_body ev)) = Some b \<and>
    \<not> (truthy (get_member b ''question'') \<and> truthy (get_member b ''maxMarks'')) \<longrightarrow>
      (OPENAI_API_KEY E = Some key \<and> key \<noteq> [] \<and> b \<noteq> JNull \<and> b \<noteq> JUndefined \<longrightarrow>
         handler_request P E ev = Return bad_request)) \<and>
   truthy (JStr s) = (s \<noteq> []) \<and>
   truthy (JNum (Fin q)) = (q \<noteq> 0)"
proof (intro conjI impI)
  assume "reaches_model (handler_request P E ev)"
  then obtain m uc where "handler_request P E ev = Go (m, uc)"
    by (cases "handler_request P E ev") auto
  then show "\<exists>b. JSON_parse P (or_empty_object (event_body ev)) = Some b \<and>
           truthy (get_member b ''question'') \<and> truthy (get_member b ''maxMarks'')"
    by (auto simp: handler_request_Go)
next
  assume a: "httpMethod ev = ''POST'' \<and> JSON_parse P (or_empty_object (event_body ev)) = Some b \<and>
    \<not> (truthy (get_member b ''question'') \<and> truthy (get_member b ''maxMarks''))"
  assume "OPENAI_API_KEY E = Some key \<and> key \<noteq> [] \<and> b \<noteq> JNull \<and> b \<noteq> JUndefined"
  with a show "handler_request P E ev = Return bad_request"
    by (auto simp: handler_request_def bad_request_def Let_def)
qed simp_all

theorem accepted_requests_truthy_witness:
  "reaches_model (handler_request sample_prims (replying ''{\"rawOutOf100\":70}'')
      (post ''{\"question\":\"Q\",\"maxMarks\":10}'')) \<and>
   (\<exists>b. JSON_parse sample_prims (or_empty_object (event_body (post ''{\"question\":\"Q\",\"maxMarks\":10}''))) = Some b \<and>
        truthy (get_member b ''question'') \<and> truthy (get_member b ''maxMarks'')) \<and>
   handler_request sample_prims (replying ''{\"rawOutOf100\":70}'') (post ''{\"maxMarks\":10}'')
     = Return bad_request"
proof -
  let ?E = "replying ''{\"rawOutOf100\":70}''"
  let ?ok = "post ''{\"question\":\"Q\",\"maxMarks\":10}''"
  let ?ko = "post ''{\"maxMarks\":10}''"
  let ?b = "JObj [(''maxMarks'', JNum (Fin 10))]"
  have reach: "reaches_model (handler_request sample_prims ?E ?ok)"
    by (simp add: evaluation)
  have rejected: "httpMethod ?ko = ''POST'' \<and>
      JSON_parse sample_prims (or_empty_object (event_body ?ko)) = Some ?b \<and>
      \<not> (truthy (get_member ?b ''question'') \<and> truthy (get_member ?b ''maxMarks''))"
    by (simp add: evaluation)
  have k: "OPENAI_API_KEY ?E = Some ''sk-test'' \<and> ''sk-test'' \<noteq> [] \<and> ?b \<noteq> JNull \<and> ?b \<noteq> JUndefined"
    by (simp add: replying_def)
  from accepted_requests_truthy [of sample_prims ?E ?ok JNull "''sk-test''" "[]" 0] reach
    accepted_requests_truthy [of sample_prims ?E ?ko ?b "''sk-test''" "[]" 0] rejected k
  show ?thesis by blast
qed

text \<open>
  Claim C8 as stated has every accepted request carry positive marks. The test
  \<^verbatim>\<open>!question || !maxMarks\<close> lets \<^verbatim>\<open>maxMarks = -5\<close> pass: the model is called and the
  request answered with status 200.
\<close>

theorem negative_marks_accepted_counterexample:
  "JSON_parse sample_prims (or_empty_object (event_body (post ''{\"question\":\"Q\",\"maxMarks\":-5}'')))
     = Some (JObj [(''question'', JStr ''Q''), (''maxMarks'', JNum (Fin (- 5)))]) \<and>
   num_less (Fin (- 5)) (Fin 0) \<and>
   reaches_model (handler_request sample_prims (replying ''{\"rawOutOf100\":70}'')
      (post ''{\"question\":\"Q\",\"maxMarks\":-5}'')) \<and>
   statusCode (handler sample_prims (replying ''{\"rawOutOf100\":70}'')
      (post ''{\"question\":\"Q\",\"maxMarks\":-5}'')) = 200"
  by (simp add: evaluation)

subsection \<open>The two implementations\<close>

text \<open>Truthy \<^verbatim>\<open>question\<close> and \<^verbatim>\<open>maxMarks\<close> do not by themselves make \<^verbatim>\<open>handler\<close> answer
  with status 200: it does not check the shape of \<^verbatim>\<open>texts\<close>, and with \<^verbatim>\<open>"texts": null\<close>
  the read of \<^verbatim>\<open>texts.length\<close> throws.\<close>

lemma malformed_texts_response:
  "handler sample_prims (replying ''{\"rawOutOf100\":70}'')
       (post ''{\"question\":\"Q\",\"maxMarks\":10,\"texts\":null}'')
     = \<lparr>statusCode = 500, headers = [], body = MessageOf TypeError\<rparr>"
  by (simp add: evaluation)

text \<open>
  Claim C10. The claim has the default export of \<^verbatim>\<open>evaluate.js\<close> and \<^verbatim>\<open>handler\<close> answer
  a request with truthy \<^verbatim>\<open>question\<close> and \<^verbatim>\<open>maxMarks\<close> alike. The try block of the
  default export declares \<^verbatim>\<open>maxMarks\<close> on line 17 and again on line 107: the source
  is rejected with a SyntaxError when the module is loaded, and the default export
  answers no request, whatever its function would do. \<^verbatim>\<open>handler\<close> has no second
  declaration (it names the result \<^verbatim>\<open>scaled\<close> and converts \<^verbatim>\<open>maxMarks\<close> in place):
  to the request \<^verbatim>\<open>{"question":"Q","maxMarks":15}\<close> and the reply
  \<^verbatim>\<open>{"rawOutOf100":70}\<close> it answers with status 200, the raw score 70 and the scaled
  score 11.
\<close>

theorem evaluate_js_rejected_at_load:
  "(17, ''maxMarks'') \<in> set try_block_declarations \<and>
   (107, ''maxMarks'') \<in> set try_block_declarations \<and>
   evaluate_js_load = Some SyntaxError \<and>
   default_export exported P E ev = Inl SyntaxError \<and>
   handler sample_prims (replying ''{\"rawOutOf100\":70}'') (post ''{\"question\":\"Q\",\"maxMarks\":15}'')
     = \<lparr>statusCode = 200, headers = [(''Content-Type'', ''application/json'')],
        body = Stringified (JObj
          [(''rawOutOf100'', JNum (Fin 70)), (''rubric'', JObj []), (''strengths'', JArr []),
           (''weaknesses'', JArr []), (''suggestions'', JArr []), (''inline_comments'', JArr []),
           (''totalScaled'', JNum (Fin 11)), (''maxMarks'', JNum (Fin 15))])\<rparr>"
proof (intro conjI)
  show "(17, ''maxMarks'') \<in> set try_block_declarations"
    by (simp add: try_block_declarations_def)
  show "(107, ''maxMarks'') \<in> set try_block_declarations"
    by (simp add: try_block_declarations_def)
  show load: "evaluate_js_load = Some SyntaxError"
    by (simp add: evaluate_js_load_def early_error_def try_block_declarations_def)
  show "default_export exported P E ev = Inl SyntaxError"
    by (simp add: default_export_def load)
  have quotient: "binary64 (7 / 10) = Fin (3152519739159347 / 4503599627370496)"
    by (simp add: rounding)
  have product: "binary64 (3152519739159347 / 4503599627370496 * 15) = Fin (21 / 2)"
    by (simp add: rounding)
  show "handler sample_prims (replying ''{\"rawOutOf100\":70}'') (post ''{\"question\":\"Q\",\"maxMarks\":15}'')
     = \<lparr>statusCode = 200, headers = [(''Content-Type'', ''application/json'')],
        body = Stringified (JObj
          [(''rawOutOf100'', JNum (Fin 70)), (''rubric'', JObj []), (''strengths'', JArr []),
           (''weaknesses'', JArr []), (''suggestions'', JArr []), (''inline_comments'', JArr []),
           (''totalScaled'', JNum (Fin 11)), (''maxMarks'', JNum (Fin 15))])\<rparr>"
    using product by (simp add: evaluation quotient)
qed

subsection \<open>The PDF threshold\<close>

lemma trim_padded:
  assumes "\<And>c. c \<in> set ws \<Longrightarrow> is_space c" and "s \<noteq> []"
    and "\<not> is_space (hd s)" and "\<not> is_space (last s)"
  shows "trim (ws @ s) = s"
proof -
  have "dropWhile is_space (ws @ s) = dropWhile is_space s"
    using assms(1) by (rule dropWhile_append2)
  also have "\<dots> = s"
    using assms(2,3) by (cases s) auto
  finally have front: "dropWhile is_space (ws @ s) = s" .
  have "dropWhile is_space (rev s) = rev s"
    using assms(2,4) by (cases "rev s") (auto simp: hd_rev)
  with front show ?thesis by (simp add: trim_def)
qed

lemma page_text:
  "fst (extractFromPDF [\<lparr>items = [replicate n (CHR ''a'')], rendering = r\<rparr>]) =
     ''\<newline>\<newline>'' @ (''[Page 1] '' @ replicate n (CHR ''a''))"
  by (simp add: extractFromPDF_def Let_def digit_char_def decimal.simps text_loop.simps)

lemma page_trimmed:
  "0 < n \<Longrightarrow> trim (fst (extractFromPDF [\<lparr>items = [replicate n (CHR ''a'')], rendering = r\<rparr>])) =
     ''[Page 1] '' @ replicate n (CHR ''a'')"
  unfolding page_text
  by (rule trim_padded) (auto simp: is_space_def)

lemma push_loop_nothing: "push_loop [] 0 images = images"
  by (simp add: push_loop.simps)

lemma extract_long_no_images:
  "500 \<le> length (trim (fst (extractFromPDF pdf))) \<Longrightarrow> snd (extractFromPDF pdf) = []"
  by (cases "text_loop pdf 1 [] = []") (auto simp: extractFromPDF_def Let_def trim_def)

text \<open>The two loops over the pages and over the renderings, and the three cases
  of the PDF branch: the text is kept, the renderings of at most 8 pages are pushed,
  or nothing is.\<close>

lemma render_loop_eq:
  "0 < i \<Longrightarrow> render_loop pdf i acc = acc @ map rendering (drop (i - 1) (take 8 pdf))"
proof (induction pdf i acc rule: render_loop.induct)
  case (1 pdf i pagesAsImages)
  show ?case
  proof (cases "i \<le> min (length pdf) 8")
    case True
    with "1.prems" have in_range: "i - 1 < length (take 8 pdf)" by auto
    from True "1.prems" have "render_loop pdf i pagesAsImages =
        (pagesAsImages @ [rendering (pdf ! (i - 1))]) @ map rendering (drop i (take 8 pdf))"
      using "1.IH" by (simp add: render_loop.simps [of pdf i])
    also have "drop (i - 1) (take 8 pdf) = take 8 pdf ! (i - 1) # drop (Suc (i - 1)) (take 8 pdf)"
      using in_range by (intro Cons_nth_drop_Suc [symmetric])
    then have "(pagesAsImages @ [rendering (pdf ! (i - 1))]) @ map rendering (drop i (take 8 pdf)) =
        pagesAsImages @ map rendering (drop (i - 1) (take 8 pdf))"
      using in_range "1.prems" by simp
    finally show ?thesis .
  next
    case False
    then have "min (length pdf) 8 \<le> i - 1" using "1.prems" by auto
    with False show ?thesis by (subst render_loop.simps) auto
  qed
qed

lemma push_loop_eq:
  "push_loop xs i acc =
     acc @ map (\<lambda>u. \<lparr>mime = ''image/jpeg'', dataUrl = u\<rparr>) (drop i (take 8 xs))"
proof (induction xs i acc rule: push_loop.induct)
  case (1 xs i images)
  show ?case
  proof (cases "i < min (length xs) 8")
    case True
    then have in_range: "i < length (take 8 xs)" by auto
    from True have "push_loop xs i images =
        (images @ [\<lparr>mime = ''image/jpeg'', dataUrl = xs ! i\<rparr>]) @
          map (\<lambda>u. \<lparr>mime = ''image/jpeg'', dataUrl = u\<rparr>) (drop (Suc i) (take 8 xs))"
      using "1.IH" by (simp add: push_loop.simps [of xs i])
    also have "drop i (take 8 xs) = take 8 xs ! i # drop (Suc i) (take 8 xs)"
      using in_range by (intro Cons_nth_drop_Suc [symmetric])
    then have "(images @ [\<lparr>mime = ''image/jpeg'', dataUrl = xs ! i\<rparr>]) @
          map (\<lambda>u. \<lparr>mime = ''image/jpeg'', dataUrl = u\<rparr>) (drop (Suc i) (take 8 xs)) =
        images @ map (\<lambda>u. \<lparr>mime = ''image/jpeg'', dataUrl = u\<rparr>) (drop i (take 8 xs))"
      using in_range by simp
    finally show ?thesis .
  next
    case False
    then have "min (length xs) 8 \<le> i" by auto
    with False show ?thesis by (subst push_loop.simps) auto
  qed
qed

lemma pdf_branch_cases:
  "pdf_branch name pdf (texts, images) =
     (if 500 < length (trim (fst (extractFromPDF pdf))) then
        (texts @ [\<lparr>source = name, text_of = fst (extractFromPDF pdf)\<rparr>], images)
      else if length (trim (fst (extractFromPDF pdf))) < 500 then
        (texts, images @ map (\<lambda>u. \<lparr>mime = ''image/jpeg'', dataUrl = u\<rparr>)
                          (map rendering (take 8 pdf)))
      else (texts, images))"
proof -
  have empty: "trim [] = []" by (simp add: trim_def)
  have images: "snd (extractFromPDF pdf) =
      (if length (trim (fst (extractFromPDF pdf))) < 500 then map rendering (take 8 pdf) else [])"
    by (cases "text_loop pdf 1 [] = []")
      (simp_all add: extractFromPDF_def Let_def render_loop_eq empty)
  have long: "500 < length (trim (fst (extractFromPDF pdf))) \<Longrightarrow> fst (extractFromPDF pdf) \<noteq> []"
    using empty by auto
  show ?thesis
    using images long
    by (cases "extractFromPDF pdf") (auto simp: pdf_branch_def push_loop_eq)
qed

text \<open>
  Claim C9. For every PDF whose extracted text, trimmed, has exactly 500 code
  units, \<^verbatim>\<open>extractFromPDF\<close> renders no page and the PDF branch of the click handler
  leaves \<^verbatim>\<open>texts\<close> and \<^verbatim>\<open>images\<close> as they were: the file contributes nothing. The
  caller keeps the text only when the length is more than 500, and the extractor
  renders pages only when it is less than 500.
\<close>

theorem pdf_of_500_characters_contributes_nothing:
  "(length (trim (fst (extractFromPDF pdf))) = 500 \<longrightarrow>
      snd (extractFromPDF pdf) = [] \<and> pdf_branch name pdf (texts, images) = (texts, images)) \<and>
   (fst (pdf_branch name pdf (texts, images)) \<noteq> texts \<longrightarrow>
      500 < length (trim (fst (extractFromPDF pdf)))) \<and>
   (snd (extractFromPDF pdf) \<noteq> [] \<longrightarrow> length (trim (fst (extractFromPDF pdf))) < 500)"
proof (intro conjI impI)
  assume len: "length (trim (fst (extractFromPDF pdf))) = 500"
  then show none: "snd (extractFromPDF pdf) = []"
    by (simp add: extract_long_no_images)
  obtain fullText pagesAsImages where e: "extractFromPDF pdf = (fullText, pagesAsImages)"
    by (cases "extractFromPDF pdf")
  with len none show "pdf_branch name pdf (texts, images) = (texts, images)"
    by (simp add: pdf_branch_def push_loop_nothing)
next
  assume changed: "fst (pdf_branch name pdf (texts, images)) \<noteq> texts"
  obtain fullText pagesAsImages where e: "extractFromPDF pdf = (fullText, pagesAsImages)"
    by (cases "extractFromPDF pdf")
  with changed show "500 < length (trim (fst (extractFromPDF pdf)))"
    by (auto simp: pdf_branch_def split: if_splits)
next
  assume "snd (extractFromPDF pdf) \<noteq> []"
  then show "length (trim (fst (extractFromPDF pdf))) < 500"
    by (auto simp: extractFromPDF_def Let_def trim_def split: if_splits)
qed

theorem pdf_of_500_characters_contributes_nothing_witness:
  "snd (extractFromPDF [\<lparr>items = [replicate 491 (CHR ''a'')], rendering = ''data:image/jpeg;base64,AAAA''\<rparr>]) = [] \<and>
   pdf_branch ''essay.pdf'' [\<lparr>items = [replicate 491 (CHR ''a'')], rendering = ''data:image/jpeg;base64,AAAA''\<rparr>]
     ([\<lparr>source = ''notes.docx'', text_of = ''first''\<rparr>], [\<lparr>mime = ''image/png'', dataUrl = ''data:image/png;base64,BBBB''\<rparr>])
     = ([\<lparr>source = ''notes.docx'', text_of = ''first''\<rparr>], [\<lparr>mime = ''image/png'', dataUrl = ''data:image/png;base64,BBBB''\<rparr>])"
proof -
  let ?pdf = "[\<lparr>items = [replicate 491 (CHR ''a'')], rendering = ''data:image/jpeg;base64,AAAA''\<rparr>]"
  have len: "length (trim (fst (extractFromPDF ?pdf))) = 500"
    by (simp add: page_trimmed)
  from pdf_of_500_characters_contributes_nothing [of ?pdf "''essay.pdf''"
      "[\<lparr>source = ''notes.docx'', text_of = ''first''\<rparr>]"
      "[\<lparr>mime = ''image/png'', dataUrl = ''data:image/png;base64,BBBB''\<rparr>]"] len
  show ?thesis by blast
qed

text \<open>
  Claim C4: the code at the boundary. A PDF of one page whose text item has 491
  characters gives the trimmed text \<^verbatim>\<open>[Page 1] \<close> and these characters, 500 in all;
  the branch pushes neither a text nor an image for it, where the claim has it
  contribute as text. With 490 characters (499 in all) the page is rendered and
  pushed as an image, as the claim says.
\<close>

theorem pdf_boundary_500_dropped:
  "length (trim (fst (extractFromPDF
      [\<lparr>items = [replicate 491 (CHR ''a'')], rendering = ''data:image/jpeg;base64,AAAA''\<rparr>]))) = 500 \<and>
   pdf_branch ''answer.pdf''
      [\<lparr>items = [replicate 491 (CHR ''a'')], rendering = ''data:image/jpeg;base64,AAAA''\<rparr>] ([], [])
     = ([], []) \<and>
   length (trim (fst (extractFromPDF
      [\<lparr>items = [replicate 490 (CHR ''a'')], rendering = ''data:image/jpeg;base64,AAAA''\<rparr>]))) = 499 \<and>
   pdf_branch ''answer.pdf''
      [\<lparr>items = [replicate 490 (CHR ''a'')], rendering = ''data:image/jpeg;base64,AAAA''\<rparr>] ([], [])
     = ([], [\<lparr>mime = ''image/jpeg'', dataUrl = ''data:image/jpeg;base64,AAAA''\<rparr>])"
proof (intro conjI)
  let ?p500 = "[\<lparr>items = [replicate 491 (CHR ''a'')], rendering = ''data:image/jpeg;base64,AAAA''\<rparr>]"
  let ?p499 = "[\<lparr>items = [replicate 490 (CHR ''a'')], rendering = ''data:image/jpeg;base64,AAAA''\<rparr>]"
  show len500: "length (trim (fst (extractFromPDF ?p500))) = 500"
    by (simp add: page_trimmed)
  then have "snd (extractFromPDF ?p500) = []"
    by (simp add: extract_long_no_images)
  with len500 show "pdf_branch ''answer.pdf'' ?p500 ([], []) = ([], [])"
    by (cases "extractFromPDF ?p500") (simp add: pdf_branch_def push_loop_nothing)
  show len499: "length (trim (fst (extractFromPDF ?p499))) = 499"
    by (simp add: page_trimmed)
  then have "snd (extractFromPDF ?p499) = [''data:image/jpeg;base64,AAAA'']"
    by (simp add: extractFromPDF_def Let_def render_loop.simps)
  with len499 show "pdf_branch ''answer.pdf'' ?p499 ([], [])
      = ([], [\<lparr>mime = ''image/jpeg'', dataUrl = ''data:image/jpeg;base64,AAAA''\<rparr>])"
    by (cases "extractFromPDF ?p499") (simp add: pdf_branch_def push_loop.simps)
qed

subsection \<open>The order of the slides\<close>

lemma runs:
  "text_runs [] = []"
  "text_runs ''<a:t>A</a:t>'' = [''A'']"
  "text_runs ''<a:t>B</a:t>'' = [''B'']"
  "text_runs ''<a:t>C</a:t>'' = [''C'']"
  by (simp_all add: text_runs.simps [of "[]"] text_runs.simps [of "''<a:t>A</a:t>''"]
      text_runs.simps [of "''<a:t>B</a:t>''"] text_runs.simps [of "''<a:t>C</a:t>''"])

lemmas slide_evaluation =
  slideFiles_def slide_number_def Number_of_digits_def match_here_def is_digit_def digits_value_def
  suffix_to_prefix

text \<open>The name of a slide part, as the presentation programs write it: the index
  in decimal between \<^verbatim>\<open>ppt/slides/slide\<close> and \<^verbatim>\<open>.xml\<close>. The expression of the comparator
  finds these digits, and their value is the index.\<close>

lemma digit_char_cases:
  assumes "d < 10"
  shows "is_digit (digit_char d)" and "of_char (digit_char d) - 48 = d"
proof -
  from assms have "d = 0 \<or> d = 1 \<or> d = 2 \<or> d = 3 \<or> d = 4 \<or> d = 5 \<or> d = 6 \<or> d = 7 \<or> d = 8 \<or> d = 9"
    by arith
  then show "is_digit (digit_char d)" and "of_char (digit_char d) - 48 = d"
    by (auto simp: digit_char_def is_digit_def)
qed

lemma decimal_digits: "c \<in> set (decimal n) \<Longrightarrow> is_digit c"
proof (induction n rule: decimal.induct)
  case (1 n)
  show ?case
  proof (cases "n < 10")
    case True
    with 1(2) show ?thesis by (simp add: decimal.simps [of n] digit_char_cases)
  next
    case False
    then have "decimal n = decimal (n div 10) @ [digit_char (n mod 10)]"
      by (simp add: decimal.simps [of n])
    with 1(1) [OF False] 1(2) show ?thesis by (auto simp: digit_char_cases)
  qed
qed

lemma decimal_nonempty: "decimal n \<noteq> []"
  by (simp add: decimal.simps [of n])

lemma digits_value_decimal: "digits_value (decimal n) = n"
proof (induction n rule: decimal.induct)
  case (1 n)
  show ?case
  proof (cases "n < 10")
    case True
    then show ?thesis by (simp add: decimal.simps [of n] digits_value_def digit_char_cases)
  next
    case False
    then have "decimal n = decimal (n div 10) @ [digit_char (n mod 10)]"
      by (simp add: decimal.simps [of n])
    with 1 [OF False] show ?thesis by (simp add: digits_value_def digit_char_cases)
  qed
qed

lemma slide_match_index:
  "slide_match (''ppt/slides/slide'' @ decimal n @ ''.xml'') = Some (decimal n)"
proof -
  have "takeWhile is_digit (decimal n @ ''.xml'') = decimal n @ takeWhile is_digit ''.xml''"
    by (rule takeWhile_append2) (rule decimal_digits)
  then have digits: "takeWhile is_digit (decimal n @ ''.xml'') = decimal n"
    by (simp add: is_digit_def)
  have "dropWhile is_digit (decimal n @ ''.xml'') = dropWhile is_digit ''.xml''"
    by (rule dropWhile_append2) (rule decimal_digits)
  then have rest: "dropWhile is_digit (decimal n @ ''.xml'') = ''.xml''"
    by (simp add: is_digit_def)
  have here: "match_here (''slide'' @ decimal n @ ''.xml'') = Some (decimal n)"
    by (simp add: match_here_def digits rest decimal_nonempty)
  have before: "match_here (''slides/slide'' @ decimal n @ ''.xml'') = None"
    by (simp add: match_here_def is_digit_def)
  from here before show ?thesis
    by (simp add: match_here_def [of "c # cs" for c cs])
qed

lemma slide_number_index:
  "n < 2 ^ 53 \<Longrightarrow> slide_number (''ppt/slides/slide'' @ decimal n @ ''.xml'') = Fin (of_nat n)"
  unfolding slide_number_def slide_match_index
  by (simp add: Number_of_digits_def digits_value_decimal binary64_of_nat)

text \<open>The number of a path is a finite number, at least 0, or \<open>+\<infinity>\<close>; on these, the
  rank is the order of the numbers.\<close>

lemma slide_number_cases:
  "slide_number path = PosInf \<or> (\<exists>q. slide_number path = Fin q \<and> 0 \<le> q)"
proof (cases "slide_match path")
  case None
  then show ?thesis by (simp add: slide_number_def)
next
  case (Some digits)
  with binary64_nonneg [of "of_nat (digits_value digits)"] show ?thesis
    by (simp add: slide_number_def Number_of_digits_def)
qed

lemma sort_rank_order: "sort_rank x \<le> sort_rank y \<Longrightarrow> \<not> num_less y x"
  by (cases x; cases y) auto

lemma slideFiles_sorted:
  "sorted_wrt (\<lambda>a b. \<not> num_less (slide_number b) (slide_number a)) (slideFiles zip_files)"
proof -
  have "sorted (map (\<lambda>path. sort_rank (slide_number path)) (slideFiles zip_files))"
    by (simp add: slideFiles_def)
  then have "sorted_wrt (\<lambda>a b. sort_rank (slide_number a) \<le> sort_rank (slide_number b))
      (slideFiles zip_files)"
    by (simp add: sorted_map)
  then show ?thesis
    by (rule sorted_wrt_mono_rel [rotated]) (rule sort_rank_order)
qed

lemma slideFiles_stable:
  "filter (\<lambda>p. slide_number p = v) (slideFiles zip_files) =
   filter (\<lambda>p. slide_number p = v)
     (filter (\<lambda>p. prefix ''ppt/slides/slide'' p \<and> suffix ''.xml'' p) (map fst zip_files))"
proof -
  let ?key = "\<lambda>p. sort_rank (slide_number p)"
  let ?files = "filter (\<lambda>p. prefix ''ppt/slides/slide'' p \<and> suffix ''.xml'' p) (map fst zip_files)"
  have split: "filter (\<lambda>p. slide_number p = v) xs =
      filter (\<lambda>p. slide_number p = v) (filter (\<lambda>p. ?key p = sort_rank v) xs)" for xs
    by (induction xs) auto
  have stable: "filter (\<lambda>p. ?key p = sort_rank v) (sort_key ?key ?files) =
      filter (\<lambda>p. ?key p = sort_rank v) ?files"
    by (rule sort_key_stable)
  have "filter (\<lambda>p. slide_number p = v) (slideFiles zip_files) =
      filter (\<lambda>p. slide_number p = v) (filter (\<lambda>p. ?key p = sort_rank v) (sort_key ?key ?files))"
    unfolding slideFiles_def by (rule split)
  also have "\<dots> = filter (\<lambda>p. slide_number p = v) (filter (\<lambda>p. ?key p = sort_rank v) ?files)"
    by (simp only: stable)
  also have "\<dots> = filter (\<lambda>p. slide_number p = v) ?files"
    by (rule split [symmetric])
  finally show ?thesis .
qed

text \<open>
  Claim C5, as amended. For every archive, the slide parts that \<^verbatim>\<open>extractFromPPTX\<close>
  processes are the entries under \<^verbatim>\<open>ppt/slides/slide\<close> ending in \<^verbatim>\<open>.xml\<close>, in the order
  of the binary64 numbers that \<^verbatim>\<open>Number\<close> gives for the digits in their names: no
  part stands before a part of a smaller number, and parts of one number keep the
  order of the archive. For an index below \<open>2 ^ 53\<close> that number is the index, so
  of two parts with indices \<open>n < m < 2 ^ 53\<close> the first stands before the second.
  The entries \<^verbatim>\<open>slide2.xml\<close>, \<^verbatim>\<open>slide10.xml\<close>, \<^verbatim>\<open>slide1.xml\<close> are processed in the order
  1, 2, 10, and their texts are assembled in that order.
\<close>

theorem slides_in_numeric_order:
  "sorted_wrt (\<lambda>a b. \<not> num_less (slide_number b) (slide_number a)) (slideFiles zip_files) \<and>
   mset (slideFiles zip_files) =
     mset (filter (\<lambda>p. prefix ''ppt/slides/slide'' p \<and> suffix ''.xml'' p) (map fst zip_files)) \<and>
   filter (\<lambda>p. slide_number p = v) (slideFiles zip_files) =
     filter (\<lambda>p. slide_number p = v)
       (filter (\<lambda>p. prefix ''ppt/slides/slide'' p \<and> suffix ''.xml'' p) (map fst zip_files)) \<and>
   (n < 2 ^ 53 \<longrightarrow> slide_number (''ppt/slides/slide'' @ decimal n @ ''.xml'') = Fin (of_nat n)) \<and>
   (n < m \<and> m < 2 ^ 53 \<and>
    i < length (slideFiles zip_files) \<and> j < length (slideFiles zip_files) \<and>
    slideFiles zip_files ! i = ''ppt/slides/slide'' @ decimal n @ ''.xml'' \<and>
    slideFiles zip_files ! j = ''ppt/slides/slide'' @ decimal m @ ''.xml'' \<longrightarrow> i < j) \<and>
   slideFiles [(''ppt/slides/slide2.xml'', ''<a:t>B</a:t>''),
               (''ppt/slides/slide10.xml'', ''<a:t>C</a:t>''),
               (''ppt/slides/slide1.xml'', ''<a:t>A</a:t>'')]
     = [''ppt/slides/slide1.xml'', ''ppt/slides/slide2.xml'', ''ppt/slides/slide10.xml''] \<and>
   map slide_number [''ppt/slides/slide1.xml'', ''ppt/slides/slide2.xml'', ''ppt/slides/slide10.xml'']
     = [Fin 1, Fin 2, Fin 10] \<and>
   extractFromPPTX [(''ppt/slides/slide2.xml'', ''<a:t>B</a:t>''),
                    (''ppt/slides/slide10.xml'', ''<a:t>C</a:t>''),
                    (''ppt/slides/slide1.xml'', ''<a:t>A</a:t>'')]
     = ''\<newline>\<newline>[Slide 1] A\<newline>\<newline>[Slide 2] B\<newline>\<newline>[Slide 10] C''"
proof (intro conjI impI)
  show "sorted_wrt (\<lambda>a b. \<not> num_less (slide_number b) (slide_number a)) (slideFiles zip_files)"
    by (rule slideFiles_sorted)
  show "mset (slideFiles zip_files) =
     mset (filter (\<lambda>p. prefix ''ppt/slides/slide'' p \<and> suffix ''.xml'' p) (map fst zip_files))"
    by (simp add: slideFiles_def)
  show "filter (\<lambda>p. slide_number p = v) (slideFiles zip_files) =
     filter (\<lambda>p. slide_number p = v)
       (filter (\<lambda>p. prefix ''ppt/slides/slide'' p \<and> suffix ''.xml'' p) (map fst zip_files))"
    by (rule slideFiles_stable)
  show "slide_number (''ppt/slides/slide'' @ decimal n @ ''.xml'') = Fin (of_nat n)" if "n < 2 ^ 53"
    using that by (rule slide_number_index)
  show "i < j"
    if a: "n < m \<and> m < 2 ^ 53 \<and>
      i < length (slideFiles zip_files) \<and> j < length (slideFiles zip_files) \<and>
      slideFiles zip_files ! i = ''ppt/slides/slide'' @ decimal n @ ''.xml'' \<and>
      slideFiles zip_files ! j = ''ppt/slides/slide'' @ decimal m @ ''.xml''"
  proof (rule ccontr)
    from a have less: "n < m" and small: "n < 2 ^ 53" "m < 2 ^ 53" by simp_all
    from a have at_i: "slide_number (slideFiles zip_files ! i) = Fin (of_nat n)"
      and at_j: "slide_number (slideFiles zip_files ! j) = Fin (of_nat m)"
      using slide_number_index [OF small(1)] slide_number_index [OF small(2)] by simp_all
    assume "\<not> i < j"
    then consider "i = j" | "j < i" by linarith
    then show False
    proof cases
      case 1
      with at_i at_j less show False by simp
    next
      case 2
      from a have "i < length (slideFiles zip_files)" by simp
      with 2 slideFiles_sorted [of zip_files]
      have "\<not> num_less (slide_number (slideFiles zip_files ! i)) (slide_number (slideFiles zip_files ! j))"
        by (simp add: sorted_wrt_iff_nth_less)
      with at_i at_j less show False by simp
    qed
  qed
  have numbers: "binary64 1 = Fin 1" "binary64 2 = Fin 2" "binary64 10 = Fin 10"
    by (simp_all add: rounding)
  show order: "slideFiles [(''ppt/slides/slide2.xml'', ''<a:t>B</a:t>''),
               (''ppt/slides/slide10.xml'', ''<a:t>C</a:t>''),
               (''ppt/slides/slide1.xml'', ''<a:t>A</a:t>'')]
     = [''ppt/slides/slide1.xml'', ''ppt/slides/slide2.xml'', ''ppt/slides/slide10.xml'']"
    by (simp add: slide_evaluation numbers)
  show "map slide_number [''ppt/slides/slide1.xml'', ''ppt/slides/slide2.xml'', ''ppt/slides/slide10.xml'']
     = [Fin 1, Fin 2, Fin 10]"
    by (simp add: slide_evaluation numbers)
  show "extractFromPPTX [(''ppt/slides/slide2.xml'', ''<a:t>B</a:t>''),
                    (''ppt/slides/slide10.xml'', ''<a:t>C</a:t>''),
                    (''ppt/slides/slide1.xml'', ''<a:t>A</a:t>'')]
     = ''\<newline>\<newline>[Slide 1] A\<newline>\<newline>[Slide 2] B\<newline>\<newline>[Slide 10] C''"
    unfolding extractFromPPTX_def order
    by (simp add: slide_text_def match_here_def is_digit_def runs)
qed

theorem slides_in_numeric_order_witness:
  "slide_number ''ppt/slides/slide2.xml'' = Fin 2 \<and>
   slide_number ''ppt/slides/slide10.xml'' = Fin 10 \<and>
   slideFiles [(''ppt/slides/slide2.xml'', ''<a:t>B</a:t>''),
               (''ppt/slides/slide10.xml'', ''<a:t>C</a:t>''),
               (''ppt/slides/slide1.xml'', ''<a:t>A</a:t>'')] ! 1 = ''ppt/slides/slide2.xml'' \<and>
   slideFiles [(''ppt/slides/slide2.xml'', ''<a:t>B</a:t>''),
               (''ppt/slides/slide10.xml'', ''<a:t>C</a:t>''),
               (''ppt/slides/slide1.xml'', ''<a:t>A</a:t>'')] ! 2 = ''ppt/slides/slide10.xml'' \<and>
   (1::nat) < 2"
proof -
  let ?zip = "[(''ppt/slides/slide2.xml'', ''<a:t>B</a:t>''),
               (''ppt/slides/slide10.xml'', ''<a:t>C</a:t>''),
               (''ppt/slides/slide1.xml'', ''<a:t>A</a:t>'')]"
  have two: "decimal 2 = ''2''" and ten: "decimal 10 = ''10''"
    by (simp_all add: decimal.simps [of 2] decimal.simps [of 10] decimal.simps [of "Suc 0"] digit_char_def)
  have small: "(2::nat) < 2 ^ 53" "(10::nat) < 2 ^ 53" "(2::nat) < 10" by simp_all
  note fact2 = slides_in_numeric_order [of ?zip NaN 2 10 1 2]
  note fact10 = slides_in_numeric_order [of ?zip NaN 10 10 1 2]
  from fact2 have files: "slideFiles ?zip =
      [''ppt/slides/slide1.xml'', ''ppt/slides/slide2.xml'', ''ppt/slides/slide10.xml'']"
    by blast
  have places: "1 < length (slideFiles ?zip)" "2 < length (slideFiles ?zip)"
    "slideFiles ?zip ! 1 = ''ppt/slides/slide'' @ decimal 2 @ ''.xml''"
    "slideFiles ?zip ! 2 = ''ppt/slides/slide'' @ decimal 10 @ ''.xml''"
    unfolding files two ten by simp_all
  from fact2 small places have before: "(1::nat) < 2" by blast
  from fact2 small have "slide_number (''ppt/slides/slide'' @ decimal 2 @ ''.xml'') = Fin (of_nat 2)"
    by blast
  then have n2: "slide_number ''ppt/slides/slide2.xml'' = Fin 2" by (simp add: two)
  from fact10 small have "slide_number (''ppt/slides/slide'' @ decimal 10 @ ''.xml'') = Fin (of_nat 10)"
    by blast
  then have n10: "slide_number ''ppt/slides/slide10.xml'' = Fin 10" by (simp add: ten)
  from places(3,4) n2 n10 before show ?thesis by (simp add: two ten)
qed

text \<open>
  Claim C5 as stated has the parts ordered by the index in their names, for every
  archive. The comparator subtracts the binary64 numbers of the indices:
  9007199254740993 (\<open>2 ^ 53 + 1\<close>) is no binary64 number and converts to
  9007199254740992, the number of the other part, so the two parts keep the order
  of the archive, the greater index first.
\<close>

theorem slides_beyond_2_53_counterexample:
  "slideFiles [(''ppt/slides/slide9007199254740993.xml'', ''<a:t>B</a:t>''),
               (''ppt/slides/slide9007199254740992.xml'', ''<a:t>A</a:t>'')]
     = [''ppt/slides/slide9007199254740993.xml'', ''ppt/slides/slide9007199254740992.xml''] \<and>
   slide_match ''ppt/slides/slide9007199254740993.xml'' = Some ''9007199254740993'' \<and>
   slide_match ''ppt/slides/slide9007199254740992.xml'' = Some ''9007199254740992'' \<and>
   digits_value ''9007199254740993'' = 9007199254740993 \<and>
   digits_value ''9007199254740992'' = 9007199254740992 \<and>
   (9007199254740992::nat) < 9007199254740993 \<and>
   slide_number ''ppt/slides/slide9007199254740993.xml'' = Fin 9007199254740992 \<and>
   slide_number ''ppt/slides/slide9007199254740992.xml'' = Fin 9007199254740992 \<and>
   extractFromPPTX [(''ppt/slides/slide9007199254740993.xml'', ''<a:t>B</a:t>''),
                    (''ppt/slides/slide9007199254740992.xml'', ''<a:t>A</a:t>'')]
     = ''\<newline>\<newline>[Slide 9007199254740993] B\<newline>\<newline>[Slide 9007199254740992] A''"
proof -
  have numbers: "binary64 9007199254740993 = Fin 9007199254740992"
      "binary64 9007199254740992 = Fin 9007199254740992"
    by (simp_all add: rounding)
  have matches: "slide_match ''ppt/slides/slide9007199254740993.xml'' = Some ''9007199254740993''"
      "slide_match ''ppt/slides/slide9007199254740992.xml'' = Some ''9007199254740992''"
    by (simp_all add: match_here_def is_digit_def)
  have digits: "digits_value ''9007199254740993'' = 9007199254740993"
      "digits_value ''9007199254740992'' = 9007199254740992"
    by (simp_all add: digits_value_def)
  have keys: "slide_number ''ppt/slides/slide9007199254740993.xml'' = Fin 9007199254740992"
      "slide_number ''ppt/slides/slide9007199254740992.xml'' = Fin 9007199254740992"
    unfolding slide_number_def matches Number_of_digits_def
    by (simp_all only: digits option.case of_nat_numeral numbers)
  have order: "slideFiles [(''ppt/slides/slide9007199254740993.xml'', ''<a:t>B</a:t>''),
               (''ppt/slides/slide9007199254740992.xml'', ''<a:t>A</a:t>'')]
     = [''ppt/slides/slide9007199254740993.xml'', ''ppt/slides/slide9007199254740992.xml'']"
    by (simp add: slideFiles_def keys suffix_to_prefix)
  have assembled: "extractFromPPTX [(''ppt/slides/slide9007199254740993.xml'', ''<a:t>B</a:t>''),
                    (''ppt/slides/slide9007199254740992.xml'', ''<a:t>A</a:t>'')]
     = ''\<newline>\<newline>[Slide 9007199254740993] B\<newline>\<newline>[Slide 9007199254740992] A''"
    unfolding extractFromPPTX_def order
    by (simp add: slide_text_def match_here_def is_digit_def runs)
  from order matches digits keys assembled show ?thesis by simp
qed

end
